theory Spec2Isabelle
  imports
    Complex_Main
    "HOL-Library.Multiset"
    "HOL-Library.Sublist"
    "HOL-Library.Char_ord"
    "HOL-Library.List_Lexorder"
begin

section \<open>The data-access layer of the dashboard (app/lib/data.ts)\<close>

text \<open>
  The module exports eight asynchronous read operations. Three of them
  (\<open>fetchRevenue\<close>, \<open>fetchLatestInvoices\<close>, \<open>fetchCardData\<close>) go through the
  Supabase client, which resolves to an object \<open>{ data, error, count }\<close>; the other
  five send a Postgres query through the \<open>sql\<close> template tag, which rejects when the
  store fails.

  Conventions of the embedding:
  \<^item> an operation returns \<open>string + 'a\<close>: \<open>Inl m\<close> is \<open>throw new Error(m)\<close> reaching
    the caller, \<open>Inr v\<close> is the resolved value;
  \<^item> \<open>undefined\<close> and \<open>null\<close> are \<open>None\<close>;
  \<^item> a finite JavaScript number is the rational it denotes. Stored amounts are
    integers of cents, taken as numbers as they are, and sums of them are exact. The
    division \<open>invoice.amount / 100\<close> is not exact in a double: it is modelled with
    the rounding of IEEE-754 binary64 (round to nearest, ties to even);
  \<^item> a value whose JavaScript type differs between operations (a money field is a
    number in some results and a string in others) is a \<open>jsval\<close>;
  \<^item> \<open>console.log\<close> and \<open>console.error\<close> are not part of the model;
  \<^item> strings are byte strings, case folding is the ASCII one, and text columns are
    ordered bytewise;
  \<^item> a table is the list of its rows; identifiers are compared as text. SQL leaves
    the order of rows with equal sort keys to the store, for each query anew: the
    invoice search takes that choice as its parameter \<open>tie\<close>. The two customer
    queries are written with one such order, and what is proved of them (ascending
    names, the rows as a multiset) holds under every other;
  \<^item> a page number is an integer.
\<close>

subsection \<open>JavaScript values, promises and the catch blocks\<close>

text \<open>\<open>JNum x\<close> is the finite number \<open>x\<close>, \<open>JInfinity True\<close> is \<open>Infinity\<close>,
  \<open>JInfinity False\<close> is \<open>-Infinity\<close>.\<close>

datatype jsval = is_JNum: JNum rat | is_JStr: JStr string | JInfinity bool

subsubsection \<open>Rounding to a double\<close>

text \<open>The nearest integer, a tie going to the even one.\<close>

definition round_half_even :: "rat \<Rightarrow> int" where
  "round_half_even x =
     (let f = \<lfloor>x\<rfloor>; d = x - of_int f in
      if d < 1 / 2 then f
      else if 1 / 2 < d then f + 1
      else if even f then f else f + 1)"

text \<open>The number of binary digits of a positive integer.\<close>

function bit_length :: "int \<Rightarrow> int" where
  "bit_length n = (if n \<le> 0 then 0 else 1 + bit_length (n div 2))"
  by pat_completeness auto
termination
  by (relation "measure nat") auto

definition pow2 :: "int \<Rightarrow> rat" where
  "pow2 e = (if 0 \<le> e then of_int (2 ^ nat e) else 1 / of_int (2 ^ nat (- e)))"

text \<open>
  For \<open>x > 0\<close>, the exponent \<open>k\<close> with \<open>2^k \<le> x < 2^(k+1)\<close>: with \<open>x = p / q\<close> it
  is the difference of the bit lengths of \<open>p\<close> and \<open>q\<close>, or one less.
\<close>

definition binade :: "rat \<Rightarrow> int" where
  "binade x =
     (case quotient_of x of (p, q) \<Rightarrow>
        (let k = bit_length p - bit_length q in if pow2 k \<le> x then k else k - 1))"

text \<open>
  The binary64 value nearest to \<open>x\<close>: a significand of 53 bits, on the grid of step
  \<open>2^e\<close> with \<open>e\<close> the binade minus 52 and at least -1074 (subnormal numbers), a
  tie going to the even significand.
\<close>

definition nearest_double :: "rat \<Rightarrow> rat" where
  "nearest_double x =
     (if x = 0 then 0
      else (let e = max (binade \<bar>x\<bar> - 52) (- 1074);
                m = round_half_even (\<bar>x\<bar> / pow2 e)
            in sgn x * of_int m * pow2 e))"

text \<open>The number a real value becomes: beyond the largest double it is an infinity.\<close>

definition to_number :: "rat \<Rightarrow> jsval" where
  "to_number x =
     (let y = nearest_double x in
      if pow2 1024 \<le> \<bar>y\<bar> then JInfinity (0 < y) else JNum y)"

text \<open>What \<open>await\<close> of a client call yields: the promise rejects, or resolves.\<close>

datatype 'a awaited = Rejects string | Resolves 'a

text \<open>
  Every operation has the shape \<open>try { body } catch (error) { console.error(...);
  throw new Error(msg) }\<close>: whatever the body throws is replaced by \<open>msg\<close>.
\<close>

definition catch_rethrow :: "string \<Rightarrow> string + 'a \<Rightarrow> string + 'a" where
  "catch_rethrow msg body = (case body of Inl _ \<Rightarrow> Inl msg | Inr v \<Rightarrow> Inr v)"

text \<open>
  \<open>formatCurrency\<close> is imported from \<open>./utils\<close>, which is not among the sources: the
  operations that call it take it as the parameter \<open>fmt\<close>.
\<close>

type_synonym formatter = "rat \<Rightarrow> string"

subsection \<open>The Supabase client\<close>

record 'a sb_response =
  sb_data :: "'a option"
  sb_error :: "string option"
  sb_count :: "nat option"

subsubsection \<open>fetchRevenue\<close>

definition fetchRevenue :: "'r sb_response awaited \<Rightarrow> string + 'r option" where
  "fetchRevenue q =
     catch_rethrow ''Failed to fetch revenue data.''
       (case q of
          Rejects e \<Rightarrow> Inl e
        | Resolves r \<Rightarrow>
            (case sb_error r of
               Some e \<Rightarrow> Inl e
             | None \<Rightarrow> Inr (sb_data r)))"

subsubsection \<open>fetchLatestInvoices\<close>

record customer_ref =
  cr_name :: string
  cr_image_url :: string
  cr_email :: string

text \<open>
  The embedded relation \<open>customers (name, image_url, email)\<close> of a selected invoice:
  \<open>null\<close>, one object, or an array of objects.
\<close>

datatype relation = RelNull | RelObject customer_ref | RelArray "customer_ref list"

record latest_raw =
  lr_amount :: int
  lr_id :: string
  lr_date :: string
  lr_customer_id :: string
  lr_customers :: relation

text \<open>
  The object built by \<open>{ ...invoice, amount: ..., name: ..., image_url: ..., email: ... }\<close>:
  the spread keeps every property of the selected row, \<open>customers\<close> included.
\<close>

record latest_invoice =
  li_amount :: jsval
  li_id :: string
  li_date :: string
  li_customer_id :: string
  li_customers :: relation
  li_name :: "string option"
  li_image_url :: "string option"
  li_email :: "string option"

text \<open>\<open>Array.isArray(invoice.customers) ? invoice.customers[0] : invoice.customers\<close>\<close>

definition pick_customer :: "relation \<Rightarrow> customer_ref option" where
  "pick_customer rel =
     (case rel of
        RelArray cs \<Rightarrow> (case cs of [] \<Rightarrow> None | c # _ \<Rightarrow> Some c)
      | RelObject c \<Rightarrow> Some c
      | RelNull \<Rightarrow> None)"

definition flatten_latest :: "formatter \<Rightarrow> latest_raw \<Rightarrow> latest_invoice" where
  "flatten_latest fmt invoice =
     (let customer = pick_customer (lr_customers invoice) in
      \<lparr> li_amount = JStr (fmt (of_int (lr_amount invoice))),
        li_id = lr_id invoice,
        li_date = lr_date invoice,
        li_customer_id = lr_customer_id invoice,
        li_customers = lr_customers invoice,
        li_name = map_option cr_name customer,
        li_image_url = map_option cr_image_url customer,
        li_email = map_option cr_email customer \<rparr>)"

text \<open>\<open>data.map\<close> on a \<open>null\<close> payload throws a TypeError inside the try block.\<close>

definition fetchLatestInvoices ::
  "formatter \<Rightarrow> latest_raw list sb_response awaited \<Rightarrow> string + latest_invoice list" where
  "fetchLatestInvoices fmt q =
     catch_rethrow ''Failed to fetch the latest invoices.''
       (case q of
          Rejects e \<Rightarrow> Inl e
        | Resolves r \<Rightarrow>
            (case sb_error r of
               Some e \<Rightarrow> Inl e
             | None \<Rightarrow>
                 (case sb_data r of
                    None \<Rightarrow> Inl ''TypeError''
                  | Some rows \<Rightarrow> Inr (map (flatten_latest fmt) rows))))"

subsubsection \<open>fetchCardData\<close>

record status_row =
  sr_amount :: int
  sr_status :: string

record card_data =
  numberOfCustomers :: nat
  numberOfInvoices :: nat
  totalPaidInvoices :: jsval
  totalPendingInvoices :: jsval

text \<open>
  \<open>rows.filter(invoice => invoice.status === s).reduce((sum, invoice) => sum +
  parseFloat(invoice.amount), 0)\<close>
\<close>

definition status_total :: "string \<Rightarrow> status_row list \<Rightarrow> rat" where
  "status_total s rows =
     foldl (\<lambda>sum invoice. sum + of_int (sr_amount invoice)) 0
       (filter (\<lambda>invoice. sr_status invoice = s) rows)"

text \<open>
  The third block: \<open>paidTotal\<close> and \<open>pendingTotal\<close> start at 0 and are assigned only in
  the \<open>else\<close> branch, where \<open>.filter\<close> on a \<open>null\<close> payload throws.
\<close>

definition card_totals :: "status_row list sb_response \<Rightarrow> string + rat \<times> rat" where
  "card_totals r =
     (case sb_error r of
        Some _ \<Rightarrow> Inr (0, 0)
      | None \<Rightarrow>
          (case sb_data r of
             None \<Rightarrow> Inl ''TypeError''
           | Some rows \<Rightarrow> Inr (status_total ''paid'' rows, status_total ''pending'' rows)))"

text \<open>\<open>Number(count ?? '0')\<close>\<close>

definition count_or_zero :: "nat option \<Rightarrow> nat" where
  "count_or_zero c = (case c of None \<Rightarrow> 0 | Some n \<Rightarrow> n)"

definition fetchCardData ::
  "formatter \<Rightarrow> 'a sb_response awaited \<Rightarrow> 'b sb_response awaited \<Rightarrow>
   status_row list sb_response awaited \<Rightarrow> string + card_data" where
  "fetchCardData fmt invoiceQ customerQ statusQ =
     catch_rethrow ''Failed to fetch card data.''
       (case invoiceQ of
          Rejects e \<Rightarrow> Inl e
        | Resolves invoiceR \<Rightarrow>
            (case customerQ of
               Rejects e \<Rightarrow> Inl e
             | Resolves customerR \<Rightarrow>
                 (case statusQ of
                    Rejects e \<Rightarrow> Inl e
                  | Resolves statusR \<Rightarrow>
                      (case card_totals statusR of
                         Inl e \<Rightarrow> Inl e
                       | Inr (paidTotal, pendingTotal) \<Rightarrow>
                           Inr \<lparr> numberOfCustomers = count_or_zero (sb_count customerR),
                                 numberOfInvoices = count_or_zero (sb_count invoiceR),
                                 totalPaidInvoices = JStr (fmt paidTotal),
                                 totalPendingInvoices = JStr (fmt pendingTotal) \<rparr>))))"

subsection \<open>The Postgres store behind the sql tag\<close>

record date =
  d_year :: nat
  d_month :: nat
  d_day :: nat

record invoice =
  inv_id :: string
  inv_customer_id :: string
  inv_amount :: int
  inv_date :: date
  inv_status :: string

record customer =
  cust_id :: string
  cust_name :: string
  cust_email :: string
  cust_image_url :: string

text \<open>\<open>fault = Some e\<close>: the store fails every query with the error \<open>e\<close>.\<close>

record store =
  invoices :: "invoice list"
  customers :: "customer list"
  fault :: "string option"

definition sql :: "store \<Rightarrow> string + 'a \<Rightarrow> string + 'a" where
  "sql st result = (case fault st of Some e \<Rightarrow> Inl e | None \<Rightarrow> result)"

subsubsection \<open>Casts to text\<close>

definition digit_char :: "nat \<Rightarrow> char" where
  "digit_char n = ''0123456789'' ! n"

text \<open>The decimal digits of a non-negative integer.\<close>

function digits10 :: "int \<Rightarrow> string" where
  "digits10 n =
     (if n < 10 then [digit_char (nat n)]
      else digits10 (n div 10) @ [digit_char (nat (n mod 10))])"
  by pat_completeness auto
termination
  by (relation "measure nat") auto

text \<open>\<open>amount::text\<close>\<close>

definition int_text :: "int \<Rightarrow> string" where
  "int_text i = (if i < 0 then CHR ''-'' # digits10 (- i) else digits10 i)"

definition pad0 :: "nat \<Rightarrow> string \<Rightarrow> string" where
  "pad0 w s = replicate (w - length s) (CHR ''0'') @ s"

text \<open>\<open>date::text\<close>, in the ISO style \<open>YYYY-MM-DD\<close>\<close>

definition date_text :: "date \<Rightarrow> string" where
  "date_text d =
     pad0 4 (digits10 (int (d_year d))) @ ''-'' @ pad0 2 (digits10 (int (d_month d))) @ ''-''
       @ pad0 2 (digits10 (int (d_day d)))"

subsubsection \<open>ILIKE\<close>

definition lower_char :: "char \<Rightarrow> char" where
  "lower_char c =
     (let n = (of_char c :: nat) in if 65 \<le> n \<and> n \<le> 90 then char_of (n + 32) else c)"

text \<open>
  \<open>like p s\<close>: the string \<open>s\<close> matches the LIKE pattern \<open>p\<close>. A percent sign matches
  any run of characters, an underscore any one character, a backslash makes the
  character after it literal. (A pattern ending in a lone backslash is an error in
  Postgres; the patterns built below end in a percent sign.)
\<close>

fun like :: "string \<Rightarrow> string \<Rightarrow> bool" where
  "like [] s = (s = [])"
| "like (c # p) [] = (c = CHR ''%'' \<and> like p [])"
| "like (c # p) (x # s) =
     (if c = CHR ''%'' then like p (x # s) \<or> like (c # p) s
      else if c = CHR ''_'' then like p s
      else if c = CHR 0x5C then (case p of [] \<Rightarrow> False | e # p' \<Rightarrow> x = e \<and> like p' s)
      else x = c \<and> like p s)"

definition ilike :: "string \<Rightarrow> string \<Rightarrow> bool" where
  "ilike s p = like (map lower_char p) (map lower_char s)"

text \<open>The template \<open>`%${query}%`\<close>: the query is spliced in as it is.\<close>

definition around :: "string \<Rightarrow> string" where
  "around query = CHR ''%'' # query @ [CHR ''%'']"

subsubsection \<open>Joins, ordering, paging\<close>

text \<open>\<open>FROM invoices JOIN customers ON invoices.customer_id = customers.id\<close>\<close>

definition invoices_join_customers :: "store \<Rightarrow> (invoice \<times> customer) list" where
  "invoices_join_customers st =
     concat (map (\<lambda>i. map (\<lambda>c. (i, c))
                        (filter (\<lambda>c. inv_customer_id i = cust_id c) (customers st)))
                 (invoices st))"

definition date_less :: "date \<Rightarrow> date \<Rightarrow> bool" where
  "date_less a b =
     (d_year a < d_year b \<or>
      (d_year a = d_year b \<and>
        (d_month a < d_month b \<or> (d_month a = d_month b \<and> d_day a < d_day b))))"

text \<open>
  The order in which the rows reach the sort. The store is free in it, for each query:
  \<open>tie\<close> lists its choices, each number picking one of the rows not yet delivered,
  and when the list is used up the remaining rows come as they lie. Every permutation
  of the rows arises from some \<open>tie\<close>, and nothing but permutations (lemmas
  \<open>arrange_complete\<close> and \<open>mset_arrange\<close> below).
\<close>

type_synonym tie_order = "nat list"

fun arrange :: "tie_order \<Rightarrow> 'a list \<Rightarrow> 'a list" where
  "arrange [] rows = rows"
| "arrange (k # ks) [] = []"
| "arrange (k # ks) (r # rs) =
     (let i = k mod length (r # rs) in
      (r # rs) ! i # arrange ks (take i (r # rs) @ drop (Suc i) (r # rs)))"

text \<open>
  \<open>ORDER BY invoices.date DESC\<close>: a row goes behind the rows of a later date, and
  rows of one date stay in the order in which they arrived.
\<close>

fun insert_date_desc ::
  "invoice \<times> customer \<Rightarrow> (invoice \<times> customer) list \<Rightarrow> (invoice \<times> customer) list" where
  "insert_date_desc r [] = [r]"
| "insert_date_desc r (y # ys) =
     (if date_less (inv_date (fst r)) (inv_date (fst y)) then y # insert_date_desc r ys
      else r # y # ys)"

definition order_by_date_desc ::
  "tie_order \<Rightarrow> (invoice \<times> customer) list \<Rightarrow> (invoice \<times> customer) list" where
  "order_by_date_desc tie rows = foldr insert_date_desc (arrange tie rows) []"

text \<open>The order of the result: no row stands before a row of a later date.\<close>

definition newest_first :: "invoice \<times> customer \<Rightarrow> invoice \<times> customer \<Rightarrow> bool" where
  "newest_first a b = (\<not> date_less (inv_date (fst a)) (inv_date (fst b)))"

text \<open>\<open>LIMIT l OFFSET o\<close>; Postgres refuses a negative limit or offset.\<close>

definition limit_offset :: "int \<Rightarrow> int \<Rightarrow> 'a list \<Rightarrow> string + 'a list" where
  "limit_offset l off rows =
     (if l < 0 then Inl ''LIMIT must not be negative''
      else if off < 0 then Inl ''OFFSET must not be negative''
      else Inr (take (nat l) (drop (nat off) rows)))"

definition ITEMS_PER_PAGE :: int where
  "ITEMS_PER_PAGE = 6"

subsubsection \<open>fetchFilteredInvoices\<close>

record 'm invoices_table =
  it_id :: string
  it_amount :: 'm
  it_date :: date
  it_status :: string
  it_name :: string
  it_email :: string
  it_image_url :: string

text \<open>The select list; the client hands the integer column over as a number.\<close>

definition select_invoices_table :: "invoice \<times> customer \<Rightarrow> jsval invoices_table" where
  "select_invoices_table r =
     (case r of (i, c) \<Rightarrow>
        \<lparr> it_id = inv_id i,
          it_amount = JNum (of_int (inv_amount i)),
          it_date = inv_date i,
          it_status = inv_status i,
          it_name = cust_name c,
          it_email = cust_email c,
          it_image_url = cust_image_url c \<rparr>)"

definition where_filtered_invoices :: "string \<Rightarrow> invoice \<times> customer \<Rightarrow> bool" where
  "where_filtered_invoices query r =
     (case r of (i, c) \<Rightarrow>
        ilike (cust_name c) (around query) \<or>
        ilike (cust_email c) (around query) \<or>
        ilike (int_text (inv_amount i)) (around query) \<or>
        ilike (date_text (inv_date i)) (around query) \<or>
        ilike (inv_status i) (around query))"

text \<open>
  One call sends one query; \<open>tie\<close> is the order the store gives the rows of equal
  date in that query.
\<close>

definition fetchFilteredInvoices ::
  "tie_order \<Rightarrow> store \<Rightarrow> string \<Rightarrow> int \<Rightarrow> string + jsval invoices_table list" where
  "fetchFilteredInvoices tie st query currentPage =
     (let offset = (currentPage - 1) * ITEMS_PER_PAGE in
      catch_rethrow ''Failed to fetch invoices.''
        (sql st
           (case limit_offset ITEMS_PER_PAGE offset
                   (order_by_date_desc tie
                      (filter (where_filtered_invoices query) (invoices_join_customers st))) of
              Inl e \<Rightarrow> Inl e
            | Inr rows \<Rightarrow> Inr (map select_invoices_table rows))))"

subsubsection \<open>fetchInvoicesPages\<close>

definition where_invoices_pages :: "string \<Rightarrow> invoice \<times> customer \<Rightarrow> bool" where
  "where_invoices_pages query r =
     (case r of (i, c) \<Rightarrow>
        ilike (cust_name c) (around query) \<or>
        ilike (cust_email c) (around query) \<or>
        ilike (int_text (inv_amount i)) (around query) \<or>
        ilike (date_text (inv_date i)) (around query) \<or>
        ilike (inv_status i) (around query))"

text \<open>
  The count query yields one row, the number of matching rows; the page count is
  \<open>Math.ceil(Number(count) / ITEMS_PER_PAGE)\<close>.
\<close>

definition fetchInvoicesPages :: "store \<Rightarrow> string \<Rightarrow> string + int" where
  "fetchInvoicesPages st query =
     catch_rethrow ''Failed to fetch total number of invoices.''
       (case sql st
               (Inr (length (filter (where_invoices_pages query) (invoices_join_customers st)))) of
          Inl e \<Rightarrow> Inl e
        | Inr matching \<Rightarrow>
            (let totalPages = \<lceil>(of_nat matching :: rat) / of_int ITEMS_PER_PAGE\<rceil> in
             Inr totalPages))"

subsubsection \<open>fetchInvoiceById\<close>

record 'm invoice_form =
  if_id :: string
  if_customer_id :: string
  if_amount :: 'm
  if_status :: string

definition select_invoice_form :: "invoice \<Rightarrow> int invoice_form" where
  "select_invoice_form i =
     \<lparr> if_id = inv_id i,
       if_customer_id = inv_customer_id i,
       if_amount = inv_amount i,
       if_status = inv_status i \<rparr>"

text \<open>
  \<open>invoice.amount / 100\<close>: the amount is a number when it reaches the division, and the
  quotient of two doubles is the double nearest to the exact quotient. An infinity
  divided by 100 is that infinity.
\<close>

definition amount_over_100 :: "int \<Rightarrow> jsval" where
  "amount_over_100 a =
     (case to_number (of_int a) of
        JNum x \<Rightarrow> to_number (x / 100)
      | v \<Rightarrow> v)"

text \<open>\<open>{ ...invoice, amount: invoice.amount / 100 }\<close>\<close>

definition cents_to_dollars :: "int invoice_form \<Rightarrow> jsval invoice_form" where
  "cents_to_dollars invoice =
     \<lparr> if_id = if_id invoice,
       if_customer_id = if_customer_id invoice,
       if_amount = amount_over_100 (if_amount invoice),
       if_status = if_status invoice \<rparr>"

text \<open>\<open>invoice[0]\<close> of an empty array is \<open>undefined\<close>.\<close>

definition fetchInvoiceById :: "store \<Rightarrow> string \<Rightarrow> string + jsval invoice_form option" where
  "fetchInvoiceById st ident =
     catch_rethrow ''Failed to fetch invoice.''
       (case sql st
               (Inr (map select_invoice_form (filter (\<lambda>i. inv_id i = ident) (invoices st)))) of
          Inl e \<Rightarrow> Inl e
        | Inr rows \<Rightarrow>
            (let invoice = map cents_to_dollars rows in
             Inr (case invoice of [] \<Rightarrow> None | x # _ \<Rightarrow> Some x)))"

subsubsection \<open>fetchCustomers\<close>

record customer_field =
  cf_id :: string
  cf_name :: string

definition select_customer_field :: "customer \<Rightarrow> customer_field" where
  "select_customer_field c = \<lparr> cf_id = cust_id c, cf_name = cust_name c \<rparr>"

definition fetchCustomers :: "store \<Rightarrow> string + customer_field list" where
  "fetchCustomers st =
     catch_rethrow ''Failed to fetch all customers.''
       (sql st (Inr (sort_key cf_name (map select_customer_field (customers st)))))"

subsubsection \<open>fetchFilteredCustomers\<close>

text \<open>
  \<open>FROM customers LEFT JOIN invoices ON customers.id = invoices.customer_id\<close>: a
  customer stands once with each of its invoices, or once with nulls when it has none.
\<close>

definition left_join_rows :: "store \<Rightarrow> customer \<Rightarrow> (customer \<times> invoice option) list" where
  "left_join_rows st c =
     (case filter (\<lambda>i. cust_id c = inv_customer_id i) (invoices st) of
        [] \<Rightarrow> [(c, None)]
      | i # is \<Rightarrow> map (\<lambda>j. (c, Some j)) (i # is))"

definition customers_left_join_invoices :: "store \<Rightarrow> (customer \<times> invoice option) list" where
  "customers_left_join_invoices st = concat (map (left_join_rows st) (customers st))"

definition where_filtered_customers :: "string \<Rightarrow> customer \<times> invoice option \<Rightarrow> bool" where
  "where_filtered_customers query r =
     (case r of (c, _) \<Rightarrow>
        ilike (cust_name c) (around query) \<or> ilike (cust_email c) (around query))"

text \<open>
  \<open>GROUP BY customers.id, customers.name, customers.email, customers.image_url\<close>:
  one group for each distinct value of the four columns, that is of the customer row.
\<close>

definition group_by_customer ::
  "(customer \<times> invoice option) list \<Rightarrow> (customer \<times> invoice option list) list" where
  "group_by_customer rows =
     map (\<lambda>k. (k, map snd (filter (\<lambda>r. fst r = k) rows))) (remdups (map fst rows))"

text \<open>\<open>COUNT(invoices.id)\<close> counts the rows where the column is not null.\<close>

definition count_invoice_id :: "invoice option list \<Rightarrow> nat" where
  "count_invoice_id g = length (filter (\<lambda>i. i \<noteq> None) g)"

text \<open>
  \<open>SUM(CASE WHEN invoices.status = s THEN invoices.amount ELSE 0 END)\<close>; on the row of a
  customer without invoices the comparison is null and the case yields 0.
\<close>

definition sum_case_status :: "string \<Rightarrow> invoice option list \<Rightarrow> int" where
  "sum_case_status s g =
     sum_list (map (\<lambda>i. case i of
                           None \<Rightarrow> 0
                         | Some j \<Rightarrow> if inv_status j = s then inv_amount j else 0) g)"

record 'm customers_table =
  ct_id :: string
  ct_name :: string
  ct_email :: string
  ct_image_url :: string
  ct_total_invoices :: nat
  ct_total_pending :: 'm
  ct_total_paid :: 'm

definition select_customers_table ::
  "customer \<times> invoice option list \<Rightarrow> int customers_table" where
  "select_customers_table r =
     (case r of (c, g) \<Rightarrow>
        \<lparr> ct_id = cust_id c,
          ct_name = cust_name c,
          ct_email = cust_email c,
          ct_image_url = cust_image_url c,
          ct_total_invoices = count_invoice_id g,
          ct_total_pending = sum_case_status ''pending'' g,
          ct_total_paid = sum_case_status ''paid'' g \<rparr>)"

text \<open>
  \<open>{ ...customer, total_pending: formatCurrency(customer.total_pending),
  total_paid: formatCurrency(customer.total_paid) }\<close>
\<close>

definition format_totals :: "formatter \<Rightarrow> int customers_table \<Rightarrow> jsval customers_table" where
  "format_totals fmt customer =
     \<lparr> ct_id = ct_id customer,
       ct_name = ct_name customer,
       ct_email = ct_email customer,
       ct_image_url = ct_image_url customer,
       ct_total_invoices = ct_total_invoices customer,
       ct_total_pending = JStr (fmt (of_int (ct_total_pending customer))),
       ct_total_paid = JStr (fmt (of_int (ct_total_paid customer))) \<rparr>"

definition fetchFilteredCustomers ::
  "formatter \<Rightarrow> store \<Rightarrow> string \<Rightarrow> string + jsval customers_table list" where
  "fetchFilteredCustomers fmt st query =
     catch_rethrow ''Failed to fetch customer table.''
       (case sql st
               (Inr (sort_key ct_name
                       (map select_customers_table
                          (group_by_customer
                             (filter (where_filtered_customers query)
                                (customers_left_join_invoices st)))))) of
          Inl e \<Rightarrow> Inl e
        | Inr rows \<Rightarrow> Inr (map (format_totals fmt) rows))"

subsection \<open>The matching rule and the customer totals as the specification words them\<close>

text \<open>
  Stated apart from the queries, to be compared with them: \<open>contains_ci s q\<close> says that
  \<open>s\<close> contains \<open>q\<close> as a substring, case ignored; \<open>customer_totals\<close> is the row of
  one customer with the number of its invoices and the formatted sums of its pending
  and of its paid amounts.
\<close>

definition contains_ci :: "string \<Rightarrow> string \<Rightarrow> bool" where
  "contains_ci s q = sublist (map lower_char q) (map lower_char s)"

text \<open>The characters that a LIKE pattern does not take literally.\<close>

definition no_wildcards :: "string \<Rightarrow> bool" where
  "no_wildcards q = (\<forall>c \<in> set q. c \<noteq> CHR ''%'' \<and> c \<noteq> CHR ''_'' \<and> c \<noteq> CHR 0x5C)"

definition invoices_of :: "store \<Rightarrow> customer \<Rightarrow> invoice list" where
  "invoices_of st c = filter (\<lambda>i. inv_customer_id i = cust_id c) (invoices st)"

definition amount_with_status :: "string \<Rightarrow> invoice list \<Rightarrow> int" where
  "amount_with_status s is = sum_list (map inv_amount (filter (\<lambda>i. inv_status i = s) is))"

definition customer_totals :: "formatter \<Rightarrow> store \<Rightarrow> customer \<Rightarrow> jsval customers_table" where
  "customer_totals fmt st c =
     \<lparr> ct_id = cust_id c,
       ct_name = cust_name c,
       ct_email = cust_email c,
       ct_image_url = cust_image_url c,
       ct_total_invoices = length (invoices_of st c),
       ct_total_pending = JStr (fmt (of_int (amount_with_status ''pending'' (invoices_of st c)))),
       ct_total_paid = JStr (fmt (of_int (amount_with_status ''paid'' (invoices_of st c)))) \<rparr>"

subsection \<open>Concrete inputs\<close>

text \<open>
  A formatter and a small store on which the operations are run below. The theorems
  hold for every formatter; \<open>dollars\<close> is not the \<open>formatCurrency\<close> of the
  repository, it only instantiates the parameter (cents to \<open>$d.cc\<close>).
\<close>

definition dollars :: formatter where
  "dollars x = CHR ''$'' # int_text \<lfloor>x / 100\<rfloor> @ ''.'' @ pad0 2 (digits10 (\<lfloor>x\<rfloor> mod 100))"

definition anna :: customer where
  "anna = \<lparr> cust_id = ''c1'', cust_name = ''Anna'', cust_email = ''a@y.org'',
            cust_image_url = ''/anna.png'' \<rparr>"

definition bob :: customer where
  "bob = \<lparr> cust_id = ''c2'', cust_name = ''Bob'', cust_email = ''banner@x.com'',
           cust_image_url = ''/bob.png'' \<rparr>"

definition carl :: customer where
  "carl = \<lparr> cust_id = ''c3'', cust_name = ''Carl'', cust_email = ''carl@z.net'',
            cust_image_url = ''/carl.png'' \<rparr>"

definition invoice1 :: invoice where
  "invoice1 = \<lparr> inv_id = ''i1'', inv_customer_id = ''c1'', inv_amount = 125000,
                inv_date = \<lparr> d_year = 2024, d_month = 3, d_day = 5 \<rparr>,
                inv_status = ''paid'' \<rparr>"

definition invoice2 :: invoice where
  "invoice2 = \<lparr> inv_id = ''i2'', inv_customer_id = ''c2'', inv_amount = 4500,
                inv_date = \<lparr> d_year = 2024, d_month = 11, d_day = 20 \<rparr>,
                inv_status = ''pending'' \<rparr>"

definition invoice3 :: invoice where
  "invoice3 = \<lparr> inv_id = ''i3'', inv_customer_id = ''c1'', inv_amount = 300,
                inv_date = \<lparr> d_year = 2023, d_month = 12, d_day = 31 \<rparr>,
                inv_status = ''pending'' \<rparr>"

definition shop :: store where
  "shop = \<lparr> invoices = [invoice1, invoice2, invoice3], customers = [bob, carl, anna],
            fault = None \<rparr>"

definition shop_down :: store where
  "shop_down = \<lparr> invoices = [invoice1, invoice2, invoice3], customers = [bob, carl, anna],
                 fault = Some ''connection refused'' \<rparr>"

text \<open>A store with thirteen invoices of one customer, dated 1 to 13 January 2024.\<close>

definition january :: "nat \<Rightarrow> invoice" where
  "january k = \<lparr> inv_id = digits10 (int k), inv_customer_id = ''c1'', inv_amount = int k * 100,
                 inv_date = \<lparr> d_year = 2024, d_month = 1, d_day = k \<rparr>,
                 inv_status = ''paid'' \<rparr>"

definition ledger :: store where
  "ledger = \<lparr> invoices = map january [1, 2, 3, 4, 5, 6, 7, 8, 9, 10, 11, 12, 13],
              customers = [anna], fault = None \<rparr>"

text \<open>A store with seven invoices of one customer, all of one day.\<close>

definition same_day :: "int \<Rightarrow> invoice" where
  "same_day k = \<lparr> inv_id = digits10 k, inv_customer_id = ''c1'', inv_amount = k * 100,
                  inv_date = \<lparr> d_year = 2024, d_month = 1, d_day = 1 \<rparr>,
                  inv_status = ''paid'' \<rparr>"

definition busy_day :: store where
  "busy_day = \<lparr> invoices = map same_day [1, 2, 3, 4, 5, 6, 7],
                customers = [anna], fault = None \<rparr>"

text \<open>
  Two choices of the store: the rows as they lie, and always the seventh, sixth, ...
  of those left (of seven rows: the rows backwards).
\<close>

definition as_stored :: tie_order where
  "as_stored = []"

definition backwards :: tie_order where
  "backwards = [6, 5, 4, 3, 2, 1, 0]"



text \<open>A Supabase response that reports an error.\<close>

definition failed :: "'a sb_response" where
  "failed = \<lparr> sb_data = None, sb_error = Some ''connection refused'', sb_count = None \<rparr>"

text \<open>A row selected by \<open>fetchLatestInvoices\<close>, before its relation is filled in.\<close>

definition latest1 :: latest_raw where
  "latest1 = \<lparr> lr_amount = 125000, lr_id = ''i1'', lr_date = ''2024-03-05'',
               lr_customer_id = ''c1'', lr_customers = RelNull \<rparr>"

definition anna_ref :: customer_ref where
  "anna_ref = \<lparr> cr_name = ''Anna'', cr_image_url = ''/anna.png'', cr_email = ''a@y.org'' \<rparr>"

text \<open>Successful responses.\<close>

definition latest_ok :: "latest_raw list sb_response" where
  "latest_ok = \<lparr> sb_data = Some [latest1\<lparr> lr_customers := RelObject anna_ref \<rparr>],
                 sb_error = None, sb_count = None \<rparr>"

definition counted :: "nat \<Rightarrow> unit sb_response" where
  "counted n = \<lparr> sb_data = Some (), sb_error = None, sb_count = Some n \<rparr>"

definition status_ok :: "status_row list sb_response" where
  "status_ok = \<lparr> sb_data = Some [\<lparr> sr_amount = 125000, sr_status = ''paid'' \<rparr>,
                                 \<lparr> sr_amount = 4500, sr_status = ''pending'' \<rparr>,
                                 \<lparr> sr_amount = 300, sr_status = ''pending'' \<rparr>],
                 sb_error = None, sb_count = None \<rparr>"

section \<open>Properties\<close>

subsection \<open>Basic facts\<close>

lemma catch_rethrow_Inl [simp]: "catch_rethrow m (Inl e) = Inl m"
  by (simp add: catch_rethrow_def)

lemma catch_rethrow_Inr [simp]: "catch_rethrow m (Inr v) = Inr v"
  by (simp add: catch_rethrow_def)

lemma sql_fault [simp]: "fault st = Some e \<Longrightarrow> sql st r = Inl e"
  by (simp add: sql_def)

lemma sql_ok [simp]: "fault st = None \<Longrightarrow> sql st r = r"
  by (simp add: sql_def)

subsection \<open>Store failures\<close>

text \<open>
  Claim C1, as amended. A store failure reaches the caller as the fixed message of the
  operation, whatever the error \<open>e\<close> of the store says: for \<open>fetchRevenue\<close> and
  \<open>fetchLatestInvoices\<close> when the client rejects or the response carries an error; for
  the five \<open>sql\<close> operations when the query rejects; for \<open>fetchCardData\<close> when one of its
  three awaits rejects. An error that a response of \<open>fetchCardData\<close> only reports does not
  make the operation fail: it completes with a result.
\<close>

theorem store_failure_fixed_message:
  fixes r :: "'r sb_response" and r1 :: "'a sb_response" and r2 :: "'b sb_response"
  shows
  "fetchRevenue (Rejects e :: 'r sb_response awaited) = Inl ''Failed to fetch revenue data.'' \<and>
   (sb_error r = Some e \<longrightarrow> fetchRevenue (Resolves r) = Inl ''Failed to fetch revenue data.'') \<and>
   fetchLatestInvoices fmt (Rejects e) = Inl ''Failed to fetch the latest invoices.'' \<and>
   (sb_error r' = Some e \<longrightarrow>
      fetchLatestInvoices fmt (Resolves r') = Inl ''Failed to fetch the latest invoices.'') \<and>
   fetchCardData fmt (Rejects e :: 'a sb_response awaited) (q2 :: 'b sb_response awaited) q3 =
      Inl ''Failed to fetch card data.'' \<and>
   fetchCardData fmt (Resolves r1) (Rejects e :: 'b sb_response awaited) q3 =
      Inl ''Failed to fetch card data.'' \<and>
   fetchCardData fmt (Resolves r1) (Resolves r2) (Rejects e) =
      Inl ''Failed to fetch card data.'' \<and>
   (sb_error r3 = Some e \<longrightarrow>
      (\<exists>v. fetchCardData fmt (Resolves r1) (Resolves r2) (Resolves r3) = Inr v)) \<and>
   (fault st = Some e \<longrightarrow>
      fetchFilteredInvoices tie st query page = Inl ''Failed to fetch invoices.'' \<and>
      fetchInvoicesPages st query = Inl ''Failed to fetch total number of invoices.'' \<and>
      fetchInvoiceById st ident = Inl ''Failed to fetch invoice.'' \<and>
      fetchCustomers st = Inl ''Failed to fetch all customers.'' \<and>
      fetchFilteredCustomers fmt st query = Inl ''Failed to fetch customer table.'')"
proof -
  have rev: "fetchRevenue (Rejects e :: 'r sb_response awaited) = Inl ''Failed to fetch revenue data.''"
    "sb_error r = Some e \<longrightarrow> fetchRevenue (Resolves r) = Inl ''Failed to fetch revenue data.''"
    by (simp_all add: fetchRevenue_def)
  have lat: "fetchLatestInvoices fmt (Rejects e) = Inl ''Failed to fetch the latest invoices.''"
    "sb_error r' = Some e \<longrightarrow>
      fetchLatestInvoices fmt (Resolves r') = Inl ''Failed to fetch the latest invoices.''"
    by (simp_all add: fetchLatestInvoices_def)
  have card: "fetchCardData fmt (Rejects e :: 'a sb_response awaited) (q2 :: 'b sb_response awaited) q3 =
      Inl ''Failed to fetch card data.''"
    "fetchCardData fmt (Resolves r1) (Rejects e :: 'b sb_response awaited) q3 =
      Inl ''Failed to fetch card data.''"
    "fetchCardData fmt (Resolves r1) (Resolves r2) (Rejects e) =
      Inl ''Failed to fetch card data.''"
    by (simp_all add: fetchCardData_def)
  have card2: "sb_error r3 = Some e \<longrightarrow>
      (\<exists>v. fetchCardData fmt (Resolves r1) (Resolves r2) (Resolves r3) = Inr v)"
    by (simp add: fetchCardData_def card_totals_def)
  have pg: "fault st = Some e \<longrightarrow>
      fetchFilteredInvoices tie st query page = Inl ''Failed to fetch invoices.'' \<and>
      fetchInvoicesPages st query = Inl ''Failed to fetch total number of invoices.'' \<and>
      fetchInvoiceById st ident = Inl ''Failed to fetch invoice.'' \<and>
      fetchCustomers st = Inl ''Failed to fetch all customers.'' \<and>
      fetchFilteredCustomers fmt st query = Inl ''Failed to fetch customer table.''"
    by (simp add: fetchFilteredInvoices_def fetchInvoicesPages_def fetchInvoiceById_def
        fetchCustomers_def fetchFilteredCustomers_def)
  from rev lat card card2 pg show ?thesis by blast
qed

text \<open>The same at a store that is down and at responses that report an error.\<close>

theorem store_failure_fixed_message_witness:
  "fetchRevenue (Resolves (failed :: unit sb_response)) = Inl ''Failed to fetch revenue data.'' \<and>
   fetchLatestInvoices dollars (Resolves failed) = Inl ''Failed to fetch the latest invoices.'' \<and>
   fetchCardData dollars (Resolves (failed :: unit sb_response))
     (Rejects ''connection refused'' :: unit sb_response awaited) (Resolves failed) =
     Inl ''Failed to fetch card data.'' \<and>
   (\<exists>v. fetchCardData dollars (Resolves (failed :: unit sb_response))
      (Resolves (failed :: unit sb_response)) (Resolves failed) = Inr v) \<and>
   fetchFilteredInvoices as_stored shop_down ''ann'' 1 = Inl ''Failed to fetch invoices.'' \<and>
   fetchInvoicesPages shop_down ''ann'' = Inl ''Failed to fetch total number of invoices.'' \<and>
   fetchInvoiceById shop_down ''i1'' = Inl ''Failed to fetch invoice.'' \<and>
   fetchCustomers shop_down = Inl ''Failed to fetch all customers.'' \<and>
   fetchFilteredCustomers dollars shop_down ''ann'' = Inl ''Failed to fetch customer table.''"
proof -
  have e: "sb_error (failed :: unit sb_response) = Some ''connection refused''"
    "sb_error (failed :: latest_raw list sb_response) = Some ''connection refused''"
    "sb_error (failed :: status_row list sb_response) = Some ''connection refused''"
    by (simp_all add: failed_def)
  have f: "fault shop_down = Some ''connection refused''"
    by (simp add: shop_down_def)
  show ?thesis
    using e f
      store_failure_fixed_message [where e = "''connection refused''"
        and r = "failed :: unit sb_response" and r' = failed and fmt = dollars
        and ?q2.0 = "Resolves (failed :: unit sb_response)"
        and ?q3.0 = "Resolves failed"
        and ?r1.0 = "failed :: unit sb_response" and ?r2.0 = "failed :: unit sb_response"
        and ?r3.0 = failed and st = shop_down and query = "''ann''" and page = 1
        and ident = "''i1''" and tie = as_stored]
    by simp
qed

text \<open>
  Claim C1 as stated fails for \<open>fetchCardData\<close>: with all three sub-queries reporting
  an error it does not fail with its message, it returns zero counts and zero totals.
\<close>

theorem card_data_reported_error_counterexample:
  "fetchCardData dollars (Resolves (failed :: unit sb_response))
     (Resolves (failed :: unit sb_response)) (Resolves failed) =
   Inr \<lparr> numberOfCustomers = 0, numberOfInvoices = 0,
         totalPaidInvoices = JStr ''$0.00'', totalPendingInvoices = JStr ''$0.00'' \<rparr>"
  by code_simp

subsection \<open>Partial failure in fetchCardData\<close>

text \<open>
  Claim C2, as amended. When the amount/status sub-query reports an error and the two
  counting sub-queries succeed with counts \<open>n1\<close> and \<open>n2\<close>, the call completes: both
  totals are the formatter applied to 0 and the two numbers are the reported counts.
  No error that a sub-query reports in its response aborts the call: whatever the three
  responses report, the call completes (given that a third response without an error
  carries its rows). A sub-query whose await rejects does abort the call, whichever of
  the three it is: the call fails with its fixed message.
\<close>

theorem card_data_degrades:
  fixes r1 :: "'a sb_response" and r2 :: "'b sb_response"
  shows
  "(sb_error r1 = None \<and> sb_count r1 = Some n1 \<and>
    sb_error r2 = None \<and> sb_count r2 = Some n2 \<and> sb_error r3 = Some e \<longrightarrow>
      fetchCardData fmt (Resolves r1) (Resolves r2) (Resolves r3) =
        Inr \<lparr> numberOfCustomers = n2, numberOfInvoices = n1,
              totalPaidInvoices = JStr (fmt 0), totalPendingInvoices = JStr (fmt 0) \<rparr>) \<and>
   ((sb_error r3 = None \<longrightarrow> sb_data r3 \<noteq> None) \<longrightarrow>
      (\<exists>v. fetchCardData fmt (Resolves r1) (Resolves r2) (Resolves r3) = Inr v)) \<and>
   fetchCardData fmt (Rejects e' :: 'a sb_response awaited) (q2 :: 'b sb_response awaited) q3 =
      Inl ''Failed to fetch card data.'' \<and>
   fetchCardData fmt (Resolves r1) (Rejects e' :: 'b sb_response awaited) q3 =
      Inl ''Failed to fetch card data.'' \<and>
   fetchCardData fmt (Resolves r1) (Resolves r2) (Rejects e') =
      Inl ''Failed to fetch card data.''"
proof -
  have reported: "sb_error r1 = None \<and> sb_count r1 = Some n1 \<and>
    sb_error r2 = None \<and> sb_count r2 = Some n2 \<and> sb_error r3 = Some e \<longrightarrow>
      fetchCardData fmt (Resolves r1) (Resolves r2) (Resolves r3) =
        Inr \<lparr> numberOfCustomers = n2, numberOfInvoices = n1,
              totalPaidInvoices = JStr (fmt 0), totalPendingInvoices = JStr (fmt 0) \<rparr>"
    by (simp add: fetchCardData_def card_totals_def count_or_zero_def)
  have completes: "(sb_error r3 = None \<longrightarrow> sb_data r3 \<noteq> None) \<longrightarrow>
      (\<exists>v. fetchCardData fmt (Resolves r1) (Resolves r2) (Resolves r3) = Inr v)"
    by (auto simp: fetchCardData_def card_totals_def split: option.splits)
  have rejected:
    "fetchCardData fmt (Rejects e' :: 'a sb_response awaited) (q2 :: 'b sb_response awaited) q3 =
      Inl ''Failed to fetch card data.''"
    "fetchCardData fmt (Resolves r1) (Rejects e' :: 'b sb_response awaited) q3 =
      Inl ''Failed to fetch card data.''"
    "fetchCardData fmt (Resolves r1) (Resolves r2) (Rejects e') =
      Inl ''Failed to fetch card data.''"
    by (simp_all add: fetchCardData_def)
  from reported completes rejected show ?thesis
    by (intro conjI)
qed

text \<open>Counts of 3 and 3 with a failed third sub-query, and with a rejected one.\<close>

theorem card_data_degrades_witness:
  "fetchCardData dollars (Resolves (counted 3)) (Resolves (counted 3)) (Resolves failed) =
     Inr \<lparr> numberOfCustomers = 3, numberOfInvoices = 3,
           totalPaidInvoices = JStr (dollars 0), totalPendingInvoices = JStr (dollars 0) \<rparr> \<and>
   (\<exists>v. fetchCardData dollars (Resolves (counted 3)) (Resolves (counted 3))
          (Resolves status_ok) = Inr v) \<and>
   fetchCardData dollars (Resolves (counted 3)) (Resolves (counted 3))
     (Rejects ''connection refused'') = Inl ''Failed to fetch card data.''"
proof -
  have counts: "sb_error (counted 3) = None" "sb_count (counted 3) = Some 3"
    by (simp_all add: counted_def)
  have third: "sb_error (failed :: status_row list sb_response) = Some ''connection refused''"
    by (simp add: failed_def)
  have rows: "sb_error status_ok = None \<longrightarrow> sb_data status_ok \<noteq> None"
    by (simp add: status_ok_def)
  note degraded = card_data_degrades [where ?r1.0 = "counted 3" and ?r2.0 = "counted 3"
      and ?r3.0 = failed and ?n1.0 = 3 and ?n2.0 = 3 and e = "''connection refused''"
      and e' = "''connection refused''" and fmt = dollars
      and ?q2.0 = "Resolves (counted 3)" and ?q3.0 = "Resolves failed"]
  note complete = card_data_degrades [where ?r1.0 = "counted 3" and ?r2.0 = "counted 3"
      and ?r3.0 = status_ok and ?n1.0 = 3 and ?n2.0 = 3 and e = "''connection refused''"
      and e' = "''connection refused''" and fmt = dollars
      and ?q2.0 = "Resolves (counted 3)" and ?q3.0 = "Resolves failed"]
  from degraded counts third
  have a: "fetchCardData dollars (Resolves (counted 3)) (Resolves (counted 3)) (Resolves failed) =
     Inr \<lparr> numberOfCustomers = 3, numberOfInvoices = 3,
           totalPaidInvoices = JStr (dollars 0), totalPendingInvoices = JStr (dollars 0) \<rparr>"
    by blast
  from complete rows
  have b: "\<exists>v. fetchCardData dollars (Resolves (counted 3)) (Resolves (counted 3))
          (Resolves status_ok) = Inr v"
    by blast
  from degraded
  have c: "fetchCardData dollars (Resolves (counted 3)) (Resolves (counted 3))
     (Rejects ''connection refused'') = Inl ''Failed to fetch card data.''"
    by blast
  from a b c show ?thesis
    by (intro conjI)
qed

text \<open>
  Claim C2 as stated fails in its last clause: when the await of the third sub-query
  rejects, the whole call is aborted.
\<close>

theorem card_data_rejected_await_counterexample:
  "fetchCardData dollars (Resolves (counted 3)) (Resolves (counted 3))
     (Rejects ''connection refused'') = Inl ''Failed to fetch card data.''"
  by code_simp

subsection \<open>The two shapes of the joined customer\<close>

lemma pick_customer_shapes:
  "pick_customer (RelObject c) = Some c" "pick_customer (RelArray [c]) = Some c"
  by (simp_all add: pick_customer_def)

text \<open>
  Claim C6, as amended. For the same invoice and the same customer data, the record
  built from the object shape and the record built from the one-element array shape
  have the same \<open>name\<close>, \<open>image_url\<close> and \<open>email\<close> (the customer's), the same formatted
  \<open>amount\<close> and the same \<open>id\<close>, \<open>date\<close> and \<open>customer_id\<close>; they differ in the property
  \<open>customers\<close> only, which the spread passes through in the shape the store returned.
  So the two results of \<open>fetchLatestInvoices\<close> are equal once \<open>customers\<close> is erased.
\<close>

theorem latest_shapes_agree:
  "flatten_latest fmt (invoice\<lparr> lr_customers := RelObject c \<rparr>) =
     \<lparr> li_amount = JStr (fmt (of_int (lr_amount invoice))),
       li_id = lr_id invoice, li_date = lr_date invoice,
       li_customer_id = lr_customer_id invoice,
       li_customers = RelObject c,
       li_name = Some (cr_name c), li_image_url = Some (cr_image_url c),
       li_email = Some (cr_email c) \<rparr> \<and>
   flatten_latest fmt (invoice\<lparr> lr_customers := RelArray [c] \<rparr>) =
     \<lparr> li_amount = JStr (fmt (of_int (lr_amount invoice))),
       li_id = lr_id invoice, li_date = lr_date invoice,
       li_customer_id = lr_customer_id invoice,
       li_customers = RelArray [c],
       li_name = Some (cr_name c), li_image_url = Some (cr_image_url c),
       li_email = Some (cr_email c) \<rparr> \<and>
   map_sum id (map (\<lambda>r. r\<lparr> li_customers := RelNull \<rparr>))
     (fetchLatestInvoices fmt
        (Resolves \<lparr> sb_data = Some (map (\<lambda>(i, c). i\<lparr> lr_customers := RelObject c \<rparr>) rows),
                    sb_error = None, sb_count = n \<rparr>)) =
   map_sum id (map (\<lambda>r. r\<lparr> li_customers := RelNull \<rparr>))
     (fetchLatestInvoices fmt
        (Resolves \<lparr> sb_data = Some (map (\<lambda>(i, c). i\<lparr> lr_customers := RelArray [c] \<rparr>) rows),
                    sb_error = None, sb_count = n \<rparr>))"
proof -
  have obj: "flatten_latest fmt (i\<lparr> lr_customers := RelObject c \<rparr>) =
     \<lparr> li_amount = JStr (fmt (of_int (lr_amount i))),
       li_id = lr_id i, li_date = lr_date i, li_customer_id = lr_customer_id i,
       li_customers = RelObject c,
       li_name = Some (cr_name c), li_image_url = Some (cr_image_url c),
       li_email = Some (cr_email c) \<rparr>" for i c
    by (simp add: flatten_latest_def pick_customer_shapes)
  have arr: "flatten_latest fmt (i\<lparr> lr_customers := RelArray [c] \<rparr>) =
     \<lparr> li_amount = JStr (fmt (of_int (lr_amount i))),
       li_id = lr_id i, li_date = lr_date i, li_customer_id = lr_customer_id i,
       li_customers = RelArray [c],
       li_name = Some (cr_name c), li_image_url = Some (cr_image_url c),
       li_email = Some (cr_email c) \<rparr>" for i c
    by (simp add: flatten_latest_def pick_customer_shapes)
  have rows: "map ((\<lambda>r. r\<lparr> li_customers := RelNull \<rparr>) \<circ> flatten_latest fmt \<circ>
                     (\<lambda>(i, c). i\<lparr> lr_customers := RelObject c \<rparr>)) rows =
              map ((\<lambda>r. r\<lparr> li_customers := RelNull \<rparr>) \<circ> flatten_latest fmt \<circ>
                     (\<lambda>(i, c). i\<lparr> lr_customers := RelArray [c] \<rparr>)) rows"
    by (rule map_cong) (auto simp: obj arr)
  show ?thesis
    using rows by (simp add: obj arr fetchLatestInvoices_def)
qed

text \<open>
  Claim C6 as stated fails: the two output records are not identical, since each keeps
  the \<open>customers\<close> property it was given.
\<close>

theorem latest_shapes_differ_counterexample:
  "fetchLatestInvoices dollars
     (Resolves \<lparr> sb_data = Some [latest1\<lparr> lr_customers := RelObject anna_ref \<rparr>],
                 sb_error = None, sb_count = None \<rparr>) \<noteq>
   fetchLatestInvoices dollars
     (Resolves \<lparr> sb_data = Some [latest1\<lparr> lr_customers := RelArray [anna_ref] \<rparr>],
                 sb_error = None, sb_count = None \<rparr>)"
  by (simp add: fetchLatestInvoices_def flatten_latest_def Let_def)


subsection \<open>fetchInvoiceById\<close>

lemma to_number_not_string: "\<not> is_JStr (to_number x)"
  by (simp add: to_number_def Let_def)

lemma amount_over_100_not_string: "\<not> is_JStr (amount_over_100 a)"
proof (cases "to_number (of_int a)")
  case (JNum x)
  then show ?thesis
    by (simp add: amount_over_100_def to_number_not_string)
next
  case (JStr s)
  with to_number_not_string [of "of_int a"] show ?thesis
    by simp
next
  case (JInfinity s)
  then show ?thesis
    by (simp add: amount_over_100_def)
qed





text \<open>
  Claim C10. When the store answers and no stored invoice has the given id, the
  operation completes with \<open>undefined\<close>; it does not fail.
\<close>

theorem invoice_by_id_absent:
  assumes "fault st = None" and "\<forall>i \<in> set (invoices st). inv_id i \<noteq> ident"
  shows "fetchInvoiceById st ident = Inr None"
proof -
  have "filter (\<lambda>i. inv_id i = ident) (invoices st) = []"
    using assms(2) by (simp add: filter_empty_conv)
  then show ?thesis
    using assms(1) by (simp add: fetchInvoiceById_def)
qed

text \<open>An id that the sample store does not hold.\<close>

theorem invoice_by_id_absent_witness:
  "fetchInvoiceById shop ''no-such-id'' = Inr None"
proof -
  have a: "fault shop = None"
    by (simp add: shop_def)
  have b: "\<forall>i \<in> set (invoices shop). inv_id i \<noteq> ''no-such-id''"
    by (simp add: shop_def invoice1_def invoice2_def invoice3_def)
  show ?thesis
    using invoice_by_id_absent [OF a b] .
qed

subsection \<open>Ordering and paging of the invoice search\<close>

lemma date_less_asym: "date_less a b \<Longrightarrow> \<not> date_less b a"
  by (auto simp: date_less_def)

lemma date_less_cotrans: "date_less a c \<Longrightarrow> date_less a b \<or> date_less b c"
  by (auto simp: date_less_def)

lemma date_less_total:
  fixes a b :: date
  shows "\<not> date_less a b \<Longrightarrow> \<not> date_less b a \<Longrightarrow> a = b"
  by (cases a, cases b) (auto simp: date_less_def)

lemma newest_first_eq:
  "newest_first = (\<lambda>a b. \<not> date_less (inv_date (fst a)) (inv_date (fst b)))"
  by (rule ext, rule ext) (simp add: newest_first_def)

lemma mset_arrange: "mset (arrange tie rows) = mset rows"
proof (induction tie rows rule: arrange.induct)
  case (1 rows)
  then show ?case by simp
next
  case (2 k ks)
  then show ?case by simp
next
  case (3 k ks r rs)
  define i where "i = k mod length (r # rs)"
  have i: "i < length (r # rs)"
    by (simp add: i_def)
  have "mset (arrange (k # ks) (r # rs)) =
        add_mset ((r # rs) ! i) (mset (take i (r # rs) @ drop (Suc i) (r # rs)))"
    using "3.IH" [of i] by (simp add: i_def Let_def)
  also have "\<dots> = mset (take i (r # rs) @ (r # rs) ! i # drop (Suc i) (r # rs))"
    by simp
  also have "take i (r # rs) @ (r # rs) ! i # drop (Suc i) (r # rs) = r # rs"
    using i by (rule id_take_nth_drop [symmetric])
  finally show ?case .
qed

lemma arrange_complete:
  "mset ys = mset rows \<Longrightarrow> \<exists>tie. arrange tie rows = ys"
proof (induction ys arbitrary: rows)
  case Nil
  then have "arrange [] rows = []"
    by simp
  then show ?case ..
next
  case (Cons y ys)
  then have "y \<in> set rows"
    by (metis list.set_intros(1) set_mset_mset)
  then obtain i where i: "i < length rows" "rows ! i = y"
    by (auto simp: in_set_conv_nth)
  then obtain r rs where rows: "rows = r # rs"
    by (cases rows) auto
  have whole: "rows = take i rows @ y # drop (Suc i) rows"
    using i by (metis id_take_nth_drop)
  have "mset rows = add_mset y (mset (take i rows @ drop (Suc i) rows))"
    by (subst whole) simp
  with Cons.prems have "mset ys = mset (take i rows @ drop (Suc i) rows)"
    by simp
  then obtain ks where ks: "arrange ks (take i rows @ drop (Suc i) rows) = ys"
    using Cons.IH by blast
  have "i mod length rows = i"
    using i(1) by simp
  then have "arrange (i # ks) rows = y # ys"
    using i(2) ks unfolding rows by (simp add: Let_def)
  then show ?case ..
qed

lemma mset_insert_date_desc: "mset (insert_date_desc r ys) = add_mset r (mset ys)"
  by (induction ys) auto

lemma set_insert_date_desc: "set (insert_date_desc r ys) = insert r (set ys)"
  by (induction ys) auto

lemma sorted_insert_date_desc:
  "sorted_wrt newest_first ys \<Longrightarrow> sorted_wrt newest_first (insert_date_desc r ys)"
proof (induction ys)
  case Nil
  then show ?case by simp
next
  case (Cons y ys)
  show ?case
  proof (cases "date_less (inv_date (fst r)) (inv_date (fst y))")
    case True
    then have "newest_first y r"
      by (simp add: newest_first_def date_less_asym)
    with True Cons show ?thesis
      by (auto simp: set_insert_date_desc)
  next
    case False
    have "newest_first r z" if "z \<in> set ys" for z
      unfolding newest_first_def
    proof
      assume "date_less (inv_date (fst r)) (inv_date (fst z))"
      then have "date_less (inv_date (fst r)) (inv_date (fst y)) \<or>
                 date_less (inv_date (fst y)) (inv_date (fst z))"
        by (rule date_less_cotrans)
      moreover have "newest_first y z"
        using Cons.prems that by simp
      ultimately show False
        using False by (simp add: newest_first_def)
    qed
    with False Cons.prems show ?thesis
      by (auto simp: newest_first_def)
  qed
qed

lemma mset_order_by_date_desc: "mset (order_by_date_desc tie rows) = mset rows"
proof -
  have "mset (foldr insert_date_desc xs []) = mset xs" for xs
    by (induction xs) (simp_all add: mset_insert_date_desc)
  then show ?thesis
    by (simp add: order_by_date_desc_def mset_arrange)
qed

lemma length_order_by_date_desc: "length (order_by_date_desc tie rows) = length rows"
  using mset_order_by_date_desc [of tie rows] by (metis size_mset)

lemma set_order_by_date_desc: "set (order_by_date_desc tie rows) = set rows"
  using mset_order_by_date_desc [of tie rows] by (metis set_mset_mset)

lemma sorted_order_by_date_desc: "sorted_wrt newest_first (order_by_date_desc tie rows)"
proof -
  have "sorted_wrt newest_first (foldr insert_date_desc xs [])" for xs
    by (induction xs) (simp_all add: sorted_insert_date_desc)
  then show ?thesis
    by (simp add: order_by_date_desc_def)
qed

text \<open>
  The orders that \<open>ORDER BY invoices.date DESC\<close> allows are all there: every
  date-descending list of the rows is the result under some choice of the store.
\<close>

lemma foldr_insert_sorted:
  "sorted_wrt newest_first xs \<Longrightarrow> foldr insert_date_desc xs [] = xs"
proof (induction xs)
  case Nil
  then show ?case by simp
next
  case (Cons x xs)
  then have "foldr insert_date_desc (x # xs) [] = insert_date_desc x xs"
    by simp
  also have "\<dots> = x # xs"
    using Cons.prems by (cases xs) (simp_all add: newest_first_def)
  finally show ?case .
qed

lemma order_by_date_desc_complete:
  assumes "mset full = mset rows" and "sorted_wrt newest_first full"
  shows "\<exists>tie. order_by_date_desc tie rows = full"
proof -
  from assms(1) obtain tie where "arrange tie rows = full"
    using arrange_complete by blast
  then have "order_by_date_desc tie rows = full"
    using assms(2) by (simp add: order_by_date_desc_def foldr_insert_sorted)
  then show ?thesis ..
qed

text \<open>
  Only rows of equal date can change places: two date-descending orders of the same
  rows in which no two rows share a date are the same list.
\<close>

lemma newest_first_unique:
  assumes "sorted_wrt newest_first xs" and "sorted_wrt newest_first ys"
    and "mset xs = mset ys" and "distinct (map (\<lambda>r. inv_date (fst r)) xs)"
  shows "xs = ys"
  using assms
proof (induction xs arbitrary: ys)
  case Nil
  then show ?case by simp
next
  case (Cons x xs)
  from Cons.prems(3) have "ys \<noteq> []"
    by auto
  then obtain y ys' where ys: "ys = y # ys'"
    by (cases ys) auto
  have same_set: "set (x # xs) = set (y # ys')"
    using Cons.prems(3) ys by (metis set_mset_mset)
  have "x = y"
  proof (rule ccontr)
    assume differ: "x \<noteq> y"
    with same_set have "x \<in> set ys'" and "y \<in> set xs"
      by auto
    then have "newest_first y x" and "newest_first x y"
      using Cons.prems(1,2) ys by auto
    then have "inv_date (fst x) = inv_date (fst y)"
      by (simp add: newest_first_def date_less_total)
    with \<open>y \<in> set xs\<close> Cons.prems(4) show False
      by (auto simp: image_iff)
  qed
  moreover from this Cons.prems(3) ys have "mset xs = mset ys'"
    by simp
  moreover have "sorted_wrt newest_first xs" "sorted_wrt newest_first ys'"
    "distinct (map (\<lambda>r. inv_date (fst r)) xs)"
    using Cons.prems ys by simp_all
  ultimately show ?case
    using Cons.IH [of ys'] ys by simp
qed

lemma order_by_date_desc_tie_free:
  assumes "distinct (map (\<lambda>r. inv_date (fst r)) rows)"
  shows "order_by_date_desc tie rows = order_by_date_desc tie' rows"
proof (rule newest_first_unique)
  show "sorted_wrt newest_first (order_by_date_desc tie rows)"
    "sorted_wrt newest_first (order_by_date_desc tie' rows)"
    by (rule sorted_order_by_date_desc)+
  show "mset (order_by_date_desc tie rows) = mset (order_by_date_desc tie' rows)"
    by (simp add: mset_order_by_date_desc)
  have "mset (map (\<lambda>r. inv_date (fst r)) (order_by_date_desc tie rows)) =
        mset (map (\<lambda>r. inv_date (fst r)) rows)"
    by (simp add: mset_order_by_date_desc)
  with assms show "distinct (map (\<lambda>r. inv_date (fst r)) (order_by_date_desc tie rows))"
    by (metis mset_eq_imp_distinct_iff)
qed

lemma ceil_sixth: "\<lceil>(of_nat n :: rat) / 6\<rceil> = int ((n + 5) div 6)"
proof (rule ceiling_unique)
  show "of_int (int ((n + 5) div 6)) - 1 < (of_nat n :: rat) / 6"
  proof -
    have "6 * ((n + 5) div 6) < n + 6" by arith
    then have "(of_nat (6 * ((n + 5) div 6)) :: rat) < of_nat (n + 6)"
      by (simp only: of_nat_less_iff)
    then show ?thesis by (simp add: field_simps)
  qed
  show "(of_nat n :: rat) / 6 \<le> of_int (int ((n + 5) div 6))"
  proof -
    have "n \<le> 6 * ((n + 5) div 6)" by arith
    then have "(of_nat n :: rat) \<le> of_nat (6 * ((n + 5) div 6))"
      by (simp only: of_nat_le_iff)
    then show ?thesis by (simp add: field_simps)
  qed
qed

lemma pages_cover:
  "(\<Sum>p = 1..k. min 6 (n - (p - 1) * 6)) = min (n::nat) (6 * k)"
  by (induction k) auto

lemma where_invoices_pages_eq:
  "where_invoices_pages = where_filtered_invoices"
  by (rule ext, rule ext) (simp add: where_invoices_pages_def where_filtered_invoices_def)

lemma fetchFilteredInvoices_page:
  assumes "fault st = None" and "1 \<le> page"
  shows "fetchFilteredInvoices tie st query page =
           Inr (take 6 (drop (nat (page - 1) * 6)
                  (map select_invoices_table
                     (order_by_date_desc tie
                        (filter (where_filtered_invoices query) (invoices_join_customers st))))))"
proof -
  have "nat ((page - 1) * 6) = nat (page - 1) * 6"
    using assms(2) by (simp add: nat_mult_distrib)
  then show ?thesis
    using assms
    by (simp add: fetchFilteredInvoices_def limit_offset_def ITEMS_PER_PAGE_def take_map drop_map)
qed

lemma fetchFilteredInvoices_tie_free:
  assumes "distinct (map (\<lambda>r. inv_date (fst r))
                      (filter (where_filtered_invoices query) (invoices_join_customers st)))"
  shows "fetchFilteredInvoices tie' st query page = fetchFilteredInvoices tie st query page"
  unfolding fetchFilteredInvoices_def order_by_date_desc_tie_free [OF assms, of tie' tie] ..

text \<open>
  Claim C3, as amended. When the store answers, every call for a page number
  \<open>page \<ge> 1\<close> returns at most 6 records, and they are the slice of at most 6 elements,
  starting at offset \<open>(page - 1) * 6\<close>, of a list \<open>full\<close> of the matching rows (as
  selected) ordered by date descending. The order of rows of equal date in \<open>full\<close> is
  the one the store chose for that query, \<open>tie\<close>: calls under the same choice are
  slices of the same list, and when no two matching rows share a date the choice does
  not matter, so that all calls are slices of the one ordered list.
\<close>

theorem filtered_invoices_pagination:
  assumes "fault st = None"
  shows "(\<exists>full.
            mset full =
              image_mset select_invoices_table
                (mset (filter (where_filtered_invoices query) (invoices_join_customers st))) \<and>
            sorted_wrt (\<lambda>a b. \<not> date_less (it_date a) (it_date b)) full \<and>
            (\<forall>page. 1 \<le> page \<longrightarrow>
               (\<exists>rows. fetchFilteredInvoices tie st query page = Inr rows \<and>
                       length rows \<le> 6 \<and>
                       rows = take 6 (drop (nat (page - 1) * 6) full)))) \<and>
         (distinct (map (\<lambda>r. inv_date (fst r))
                      (filter (where_filtered_invoices query) (invoices_join_customers st))) \<longrightarrow>
            fetchFilteredInvoices tie' st query page' = fetchFilteredInvoices tie st query page')"
proof -
  define matching where
    "matching = filter (where_filtered_invoices query) (invoices_join_customers st)"
  define full where "full = map select_invoices_table (order_by_date_desc tie matching)"
  have perm: "mset full = image_mset select_invoices_table (mset matching)"
    by (simp add: full_def mset_order_by_date_desc)
  have "sorted_wrt newest_first (order_by_date_desc tie matching)"
    by (rule sorted_order_by_date_desc)
  then have ordered: "sorted_wrt (\<lambda>a b. \<not> date_less (it_date a) (it_date b)) full"
    by (simp add: full_def sorted_wrt_map newest_first_eq select_invoices_table_def
        case_prod_unfold)
  have pages: "\<exists>rows. fetchFilteredInvoices tie st query page = Inr rows \<and> length rows \<le> 6 \<and>
                 rows = take 6 (drop (nat (page - 1) * 6) full)" if "1 \<le> page" for page
    using fetchFilteredInvoices_page [OF assms that, of tie query]
    by (simp add: full_def matching_def)
  have one: "\<exists>full.
            mset full = image_mset select_invoices_table (mset matching) \<and>
            sorted_wrt (\<lambda>a b. \<not> date_less (it_date a) (it_date b)) full \<and>
            (\<forall>page. 1 \<le> page \<longrightarrow>
               (\<exists>rows. fetchFilteredInvoices tie st query page = Inr rows \<and>
                       length rows \<le> 6 \<and>
                       rows = take 6 (drop (nat (page - 1) * 6) full)))"
    using perm ordered pages by blast
  have free: "distinct (map (\<lambda>r. inv_date (fst r)) matching) \<longrightarrow>
            fetchFilteredInvoices tie' st query page' = fetchFilteredInvoices tie st query page'"
    unfolding matching_def by (rule impI) (rule fetchFilteredInvoices_tie_free)
  from one free show ?thesis
    unfolding matching_def by (rule conjI)
qed

text \<open>
  Page 3 of the thirteen January invoices holds the oldest one, whether the store
  takes the rows as they lie or backwards.
\<close>

theorem filtered_invoices_pagination_witness:
  "fault ledger = None \<and>
   (\<exists>full.
      mset full =
        image_mset select_invoices_table
          (mset (filter (where_filtered_invoices '''') (invoices_join_customers ledger))) \<and>
      sorted_wrt (\<lambda>a b. \<not> date_less (it_date a) (it_date b)) full \<and>
      fetchFilteredInvoices as_stored ledger '''' 3 = Inr (take 6 (drop 12 full)) \<and>
      length (take 6 (drop 12 full)) \<le> 6) \<and>
   fetchFilteredInvoices backwards ledger '''' 3 = fetchFilteredInvoices as_stored ledger '''' 3 \<and>
   map_sum id (map it_id) (fetchFilteredInvoices as_stored ledger '''' 3) = Inr [''1'']"
proof -
  have up: "fault ledger = None"
    by (simp add: ledger_def)
  have days: "distinct (map (\<lambda>r. inv_date (fst r))
                (filter (where_filtered_invoices '''') (invoices_join_customers ledger)))"
    by code_simp
  note paging = filtered_invoices_pagination [OF up, of "''''" as_stored backwards 3]
  from paging obtain full where
    perm: "mset full =
        image_mset select_invoices_table
          (mset (filter (where_filtered_invoices '''') (invoices_join_customers ledger)))" and
    ordered: "sorted_wrt (\<lambda>a b. \<not> date_less (it_date a) (it_date b)) full" and
    pages: "\<forall>page. 1 \<le> page \<longrightarrow>
              (\<exists>rows. fetchFilteredInvoices as_stored ledger '''' page = Inr rows \<and>
                      length rows \<le> 6 \<and>
                      rows = take 6 (drop (nat (page - 1) * 6) full))"
    by blast
  have "(1::int) \<le> 3" by simp
  with pages have "\<exists>rows. fetchFilteredInvoices as_stored ledger '''' 3 = Inr rows \<and>
                      length rows \<le> 6 \<and>
                      rows = take 6 (drop (nat (3 - 1) * 6) full)"
    by blast
  then have third: "fetchFilteredInvoices as_stored ledger '''' 3 = Inr (take 6 (drop 12 full))"
    by simp
  from paging days
  have free: "fetchFilteredInvoices backwards ledger '''' 3 =
              fetchFilteredInvoices as_stored ledger '''' 3"
    by blast
  have ids: "map_sum id (map it_id) (fetchFilteredInvoices as_stored ledger '''' 3) = Inr [''1'']"
    by code_simp
  from up perm ordered third free ids show ?thesis
    by auto
qed

text \<open>
  Claim C3 as stated fails: it speaks of the one ordered list of the matching rows,
  and with rows of equal date there is none. Of seven invoices of one day, page 1
  fetched while the store takes the rows as they lie and page 2 fetched while it takes
  them backwards both hold invoice 1; they are slices of no common list of the seven.
\<close>

theorem pages_of_one_day_counterexample:
  "map_sum id (map it_id) (fetchFilteredInvoices as_stored busy_day '''' 1) =
     Inr [''1'', ''2'', ''3'', ''4'', ''5'', ''6''] \<and>
   map_sum id (map it_id) (fetchFilteredInvoices backwards busy_day '''' 2) = Inr [''1''] \<and>
   map inv_id (invoices busy_day) = [''1'', ''2'', ''3'', ''4'', ''5'', ''6'', ''7''] \<and>
   \<not> (\<exists>full.
        mset full =
          image_mset select_invoices_table
            (mset (filter (where_filtered_invoices '''') (invoices_join_customers busy_day))) \<and>
        fetchFilteredInvoices as_stored busy_day '''' 1 = Inr (take 6 (drop 0 full)) \<and>
        fetchFilteredInvoices backwards busy_day '''' 2 = Inr (take 6 (drop 6 full)))"
proof -
  have first: "map_sum id (map it_id) (fetchFilteredInvoices as_stored busy_day '''' 1) =
     Inr [''1'', ''2'', ''3'', ''4'', ''5'', ''6'']"
    by code_simp
  have second: "map_sum id (map it_id) (fetchFilteredInvoices backwards busy_day '''' 2) =
     Inr [''1'']"
    by code_simp
  have stored: "map inv_id (invoices busy_day) = [''1'', ''2'', ''3'', ''4'', ''5'', ''6'', ''7'']"
    by code_simp
  have matching: "map (\<lambda>r. it_id (select_invoices_table r))
       (filter (where_filtered_invoices '''') (invoices_join_customers busy_day)) =
     [''1'', ''2'', ''3'', ''4'', ''5'', ''6'', ''7'']"
    by code_simp
  have none: False
    if perm: "mset full =
          image_mset select_invoices_table
            (mset (filter (where_filtered_invoices '''') (invoices_join_customers busy_day)))"
      and one: "fetchFilteredInvoices as_stored busy_day '''' 1 = Inr (take 6 (drop 0 full))"
      and two: "fetchFilteredInvoices backwards busy_day '''' 2 = Inr (take 6 (drop 6 full))"
    for full
  proof -
    from perm have "mset (map it_id full) =
        mset (map (\<lambda>r. it_id (select_invoices_table r))
          (filter (where_filtered_invoices '''') (invoices_join_customers busy_day)))"
      by (simp add: image_mset.compositionality o_def)
    then have ids: "mset (map it_id full) = mset [''1'', ''2'', ''3'', ''4'', ''5'', ''6'', ''7'']"
      by (simp only: matching)
    then have "size (mset (map it_id full)) = 7"
      by simp
    then have len: "length full = 7"
      by simp
    from first one have head: "map it_id (take 6 full) = [''1'', ''2'', ''3'', ''4'', ''5'', ''6'']"
      by simp
    from len have "take 6 (drop 6 full) = drop 6 full"
      by simp
    with second two have tail: "map it_id (drop 6 full) = [''1'']"
      by simp
    have "map it_id full = map it_id (take 6 full) @ map it_id (drop 6 full)"
      by (simp flip: map_append)
    with head tail have "map it_id full = [''1'', ''2'', ''3'', ''4'', ''5'', ''6'', ''1'']"
      by simp
    moreover from ids have "''7'' \<in> set (map it_id full)"
      by (metis list.set_intros(1,2) set_mset_mset)
    ultimately show False
      by simp
  qed
  from first second stored none show ?thesis
    by blast
qed

text \<open>
  Claim C4. When the store answers and \<open>n\<close> rows match, \<open>fetchInvoicesPages\<close> returns
  the ceiling of \<open>n / 6\<close>; 13 matching rows give 3; the pages \<open>1..pages\<close> of
  \<open>fetchFilteredInvoices\<close> for the same query hold \<open>n\<close> records in total, every later
  page is empty, and so the page count times 6 is at least the number of records
  returned across all pages. This holds whatever order the store chooses among rows of
  equal date for each of the pages, \<open>ties p\<close> for page \<open>p\<close>.
\<close>

theorem invoices_pages_ceiling:
  assumes "fault st = None"
    and "n = length (filter (where_invoices_pages query) (invoices_join_customers st))"
  shows "\<exists>pages rows.
           fetchInvoicesPages st query = Inr (int pages) \<and>
           int pages = \<lceil>(of_nat n :: rat) / 6\<rceil> \<and>
           (n = 13 \<longrightarrow> pages = 3) \<and>
           (\<forall>p. 1 \<le> p \<longrightarrow> fetchFilteredInvoices (ties p) st query (int p) = Inr (rows p)) \<and>
           (\<Sum>p = 1..pages. length (rows p)) = n \<and>
           (\<forall>p. pages < p \<longrightarrow> rows p = []) \<and>
           (\<Sum>p = 1..pages. length (rows p)) \<le> pages * 6"
proof -
  define full where
    "full t = map select_invoices_table
              (order_by_date_desc t
                 (filter (where_filtered_invoices query) (invoices_join_customers st)))"
    for t :: tie_order
  define pages where "pages = (n + 5) div 6"
  define rows where "rows p = take 6 (drop ((p - 1) * 6) (full (ties p)))" for p :: nat
  have len: "length (full t) = n" for t
    using assms(2)
    by (simp add: full_def where_invoices_pages_eq length_order_by_date_desc)
  have ceil: "int pages = \<lceil>(of_nat n :: rat) / 6\<rceil>"
    by (simp add: pages_def ceil_sixth)
  have res: "fetchInvoicesPages st query = Inr (int pages)"
    using assms by (simp add: fetchInvoicesPages_def ITEMS_PER_PAGE_def ceil)
  have thirteen: "n = 13 \<longrightarrow> pages = 3"
    by (simp add: pages_def)
  have each: "fetchFilteredInvoices (ties p) st query (int p) = Inr (rows p)" if "1 \<le> p" for p
  proof -
    have "nat (int p - 1) = p - 1" by simp
    then show ?thesis
      using fetchFilteredInvoices_page [OF assms(1), of "int p" "ties p" query] that
      by (simp add: rows_def full_def)
  qed
  have enough: "n \<le> 6 * pages"
    unfolding pages_def by arith
  have "length (rows p) = min 6 (n - (p - 1) * 6)" for p
    by (simp add: rows_def len)
  then have "(\<Sum>p = 1..pages. length (rows p)) = min n (6 * pages)"
    by (simp only: pages_cover)
  with enough have total: "(\<Sum>p = 1..pages. length (rows p)) = n"
    by simp
  have beyond: "rows p = []" if "pages < p" for p
  proof -
    have "n \<le> (p - 1) * 6" using enough that by arith
    then show ?thesis by (simp add: rows_def len)
  qed
  have bound: "(\<Sum>p = 1..pages. length (rows p)) \<le> pages * 6"
    using total enough by simp
  from res ceil thirteen each total beyond bound show ?thesis
    by blast
qed

text \<open>The thirteen January invoices make three pages.\<close>

theorem invoices_pages_ceiling_witness:
  "fault ledger = None \<and>
   length (filter (where_invoices_pages '''') (invoices_join_customers ledger)) = 13 \<and>
   fetchInvoicesPages ledger '''' = Inr 3"
proof -
  have up: "fault ledger = None"
    by (simp add: ledger_def)
  have n: "13 = length (filter (where_invoices_pages '''') (invoices_join_customers ledger))"
    by code_simp
  from invoices_pages_ceiling [OF up n] obtain pages where
    "fetchInvoicesPages ledger '''' = Inr (int pages)" and "(13::nat) = 13 \<longrightarrow> pages = 3"
    by blast
  then have "fetchInvoicesPages ledger '''' = Inr 3"
    by simp
  with up n show ?thesis
    by simp
qed

subsection \<open>ILIKE and substrings\<close>

lemma like_percent: "like [CHR ''%''] s"
  by (induction s) auto

lemma like_literal_prefix:
  "no_wildcards p \<Longrightarrow> like (p @ [CHR ''%'']) s \<longleftrightarrow> prefix p s"
proof (induction p arbitrary: s)
  case Nil
  then show ?case by (simp add: like_percent)
next
  case (Cons c p)
  then have "no_wildcards p" and "c \<noteq> CHR ''%''" "c \<noteq> CHR ''_''" "c \<noteq> CHR 0x5C"
    by (simp_all add: no_wildcards_def)
  with Cons.IH show ?case
    by (cases s) auto
qed

lemma like_percent_suffix:
  "like (CHR ''%'' # p) s \<longleftrightarrow> (\<exists>t. suffix t s \<and> like p t)"
proof (induction s)
  case Nil
  then show ?case by simp
next
  case (Cons x s)
  then show ?case
    by (auto simp: suffix_Cons)
qed

lemma like_around:
  assumes "no_wildcards q"
  shows "like (around q) s \<longleftrightarrow> sublist q s"
  unfolding around_def like_percent_suffix like_literal_prefix [OF assms] sublist_altdef'
  by blast

lemma lower_char_neq:
  assumes "(of_char k :: nat) < 65 \<or> 90 < (of_char k :: nat)"
    and "(of_char k :: nat) < 97 \<or> 122 < (of_char k :: nat)"
  shows "lower_char c = k \<longleftrightarrow> c = k"
proof (cases "65 \<le> (of_char c :: nat) \<and> (of_char c :: nat) \<le> 90")
  case True
  then have "(of_char (lower_char c) :: nat) = of_char c + 32"
    by (simp add: lower_char_def Let_def)
  with True assms show ?thesis
    by auto
next
  case False
  then show ?thesis
    by (auto simp: lower_char_def Let_def)
qed

lemma lower_char_wild:
  "lower_char c = CHR ''%'' \<longleftrightarrow> c = CHR ''%''"
  "lower_char c = CHR ''_'' \<longleftrightarrow> c = CHR ''_''"
  "lower_char c = CHR 0x5C \<longleftrightarrow> c = CHR 0x5C"
  by (simp_all add: lower_char_neq)


lemma no_wildcards_lower: "no_wildcards q \<Longrightarrow> no_wildcards (map lower_char q)"
  by (auto simp: no_wildcards_def lower_char_wild)

lemma lower_around: "map lower_char (around q) = around (map lower_char q)"
  by (simp add: around_def lower_char_def)

lemma ilike_contains_ci:
  "no_wildcards q \<Longrightarrow> ilike s (around q) \<longleftrightarrow> contains_ci s q"
  by (simp add: ilike_def contains_ci_def lower_around like_around no_wildcards_lower)

subsection \<open>The page count and the pages use one predicate\<close>

lemma in_some_page:
  assumes "x \<in> set xs"
  shows "\<exists>p. x \<in> set (take 6 (drop (p * 6) xs))"
proof -
  from assms obtain k where k: "k < length xs" "xs ! k = x"
    by (auto simp: in_set_conv_nth)
  define p where "p = k div 6"
  have split: "p * 6 + k mod 6 = k"
    by (simp add: p_def)
  have "k mod 6 < length (take 6 (drop (p * 6) xs))"
    using k(1) split by simp
  moreover have "take 6 (drop (p * 6) xs) ! (k mod 6) = x"
    using k split by simp
  ultimately show ?thesis
    by (metis nth_mem)
qed

lemma where_by_select:
  "select_invoices_table r = select_invoices_table r' \<Longrightarrow>
   where_filtered_invoices q r = where_filtered_invoices q r'"
  by (cases r; cases r') (simp add: select_invoices_table_def where_filtered_invoices_def)

text \<open>
  Claim C5, as amended. The two queries have the same \<open>WHERE\<close> clause, for every
  query string. When the store answers, a joined row that appears on some page
  \<open>page \<ge> 1\<close> of \<open>fetchFilteredInvoices\<close> is counted by \<open>fetchInvoicesPages\<close> for the same
  query, whatever order the store chose for each page (\<open>ties page\<close>). A counted row
  appears on some page when all pages are fetched under one order of the rows of equal
  date (\<open>tie\<close>), and so in every case when no two matching rows share a date. The
  clause is the \<open>ILIKE\<close> match of the pattern \<open>%query%\<close> against the customer name, the
  customer email, the amount as text, the date as text and the status, joined by
  \<open>OR\<close>; it is the case-insensitive substring test when the query contains none of
  the characters percent, underscore and backslash.
\<close>

theorem count_and_pages_agree:
  assumes "fault st = None" and "r \<in> set (invoices_join_customers st)"
  shows "where_invoices_pages query = where_filtered_invoices query \<and>
         ((\<exists>page rows. 1 \<le> page \<and> fetchFilteredInvoices (ties page) st query page = Inr rows \<and>
                        select_invoices_table r \<in> set rows) \<longrightarrow>
            where_invoices_pages query r) \<and>
         (where_invoices_pages query r \<longleftrightarrow>
            (\<exists>page rows. 1 \<le> page \<and> fetchFilteredInvoices tie st query page = Inr rows \<and>
                          select_invoices_table r \<in> set rows)) \<and>
         (distinct (map (\<lambda>r. inv_date (fst r))
                      (filter (where_filtered_invoices query) (invoices_join_customers st))) \<longrightarrow>
            (where_invoices_pages query r \<longleftrightarrow>
               (\<exists>page rows. 1 \<le> page \<and>
                             fetchFilteredInvoices (ties page) st query page = Inr rows \<and>
                             select_invoices_table r \<in> set rows))) \<and>
         (no_wildcards query \<longrightarrow>
            (where_invoices_pages query r \<longleftrightarrow>
               contains_ci (cust_name (snd r)) query \<or>
               contains_ci (cust_email (snd r)) query \<or>
               contains_ci (int_text (inv_amount (fst r))) query \<or>
               contains_ci (date_text (inv_date (fst r))) query \<or>
               contains_ci (inv_status (fst r)) query))"
proof -
  define matching where
    "matching = filter (where_filtered_invoices query) (invoices_join_customers st)"
  define full where "full t = map select_invoices_table (order_by_date_desc t matching)"
    for t :: tie_order
  have same: "where_invoices_pages query = where_filtered_invoices query"
    by (simp add: where_invoices_pages_eq)
  have page: "fetchFilteredInvoices t st query page =
                Inr (take 6 (drop (nat (page - 1) * 6) (full t)))"
    if "1 \<le> page" for page t
    using fetchFilteredInvoices_page [OF assms(1) that, of t query]
    by (simp add: full_def matching_def)
  have set_full: "set (full t) = select_invoices_table ` set matching" for t
    by (simp add: full_def set_order_by_date_desc)
  have fwd: "\<exists>page rows. 1 \<le> page \<and> fetchFilteredInvoices t st query page = Inr rows \<and>
                 select_invoices_table r \<in> set rows"
    if "where_filtered_invoices query r" for t
  proof -
    from that assms(2) have "select_invoices_table r \<in> set (full t)"
      by (simp add: set_full matching_def)
    then have "\<exists>p. select_invoices_table r \<in> set (take 6 (drop (p * 6) (full t)))"
      by (rule in_some_page)
    then obtain p where p: "select_invoices_table r \<in> set (take 6 (drop (p * 6) (full t)))" ..
    have "fetchFilteredInvoices t st query (int p + 1) = Inr (take 6 (drop (p * 6) (full t)))"
      using page [of "int p + 1" t] by simp
    with p show ?thesis
      by (intro exI [of _ "int p + 1"] exI [of _ "take 6 (drop (p * 6) (full t))"]) simp
  qed
  have bwd: "where_filtered_invoices query r"
    if "1 \<le> page" and "fetchFilteredInvoices t st query page = Inr rows"
      and "select_invoices_table r \<in> set rows" for page rows t
  proof -
    from that(1,2) page [of page t] have "rows = take 6 (drop (nat (page - 1) * 6) (full t))"
      by simp
    with that(3) have "select_invoices_table r \<in> set (full t)"
      by (metis in_set_takeD in_set_dropD)
    then obtain r' where "r' \<in> set matching" "select_invoices_table r = select_invoices_table r'"
      by (auto simp: set_full)
    then show ?thesis
      using where_by_select [of r r' query] by (simp add: matching_def)
  qed
  have on_page: "(\<exists>page rows. 1 \<le> page \<and>
                    fetchFilteredInvoices (ties page) st query page = Inr rows \<and>
                    select_invoices_table r \<in> set rows) \<longrightarrow>
                 where_invoices_pages query r"
  proof
    assume "\<exists>page rows. 1 \<le> page \<and> fetchFilteredInvoices (ties page) st query page = Inr rows \<and>
              select_invoices_table r \<in> set rows"
    then obtain page rows where "1 \<le> page"
      "fetchFilteredInvoices (ties page) st query page = Inr rows"
      "select_invoices_table r \<in> set rows"
      by blast
    then have "where_filtered_invoices query r"
      by (rule bwd)
    then show "where_invoices_pages query r"
      by (simp only: same)
  qed
  have pages: "where_invoices_pages query r \<longleftrightarrow>
            (\<exists>page rows. 1 \<le> page \<and> fetchFilteredInvoices tie st query page = Inr rows \<and>
                          select_invoices_table r \<in> set rows)"
  proof
    assume "where_invoices_pages query r"
    then show "\<exists>page rows. 1 \<le> page \<and> fetchFilteredInvoices tie st query page = Inr rows \<and>
                          select_invoices_table r \<in> set rows"
      using fwd by (simp only: same)
  next
    assume "\<exists>page rows. 1 \<le> page \<and> fetchFilteredInvoices tie st query page = Inr rows \<and>
                          select_invoices_table r \<in> set rows"
    then obtain page rows where "1 \<le> page" "fetchFilteredInvoices tie st query page = Inr rows"
      "select_invoices_table r \<in> set rows"
      by blast
    then have "where_filtered_invoices query r"
      by (rule bwd)
    then show "where_invoices_pages query r"
      by (simp only: same)
  qed
  have apart: "distinct (map (\<lambda>r. inv_date (fst r)) matching) \<longrightarrow>
            (where_invoices_pages query r \<longleftrightarrow>
               (\<exists>page rows. 1 \<le> page \<and>
                             fetchFilteredInvoices (ties page) st query page = Inr rows \<and>
                             select_invoices_table r \<in> set rows))"
  proof
    assume days: "distinct (map (\<lambda>r. inv_date (fst r)) matching)"
    have "fetchFilteredInvoices (ties page) st query page = fetchFilteredInvoices tie st query page"
      for page
      using days unfolding matching_def by (rule fetchFilteredInvoices_tie_free)
    then show "where_invoices_pages query r \<longleftrightarrow>
               (\<exists>page rows. 1 \<le> page \<and>
                             fetchFilteredInvoices (ties page) st query page = Inr rows \<and>
                             select_invoices_table r \<in> set rows)"
      using pages by simp
  qed
  have words: "where_filtered_invoices query r \<longleftrightarrow>
               contains_ci (cust_name (snd r)) query \<or>
               contains_ci (cust_email (snd r)) query \<or>
               contains_ci (int_text (inv_amount (fst r))) query \<or>
               contains_ci (date_text (inv_date (fst r))) query \<or>
               contains_ci (inv_status (fst r)) query" if "no_wildcards query"
    by (cases r) (simp add: where_filtered_invoices_def ilike_contains_ci [OF that])
  have words': "no_wildcards query \<longrightarrow>
            (where_invoices_pages query r \<longleftrightarrow>
               contains_ci (cust_name (snd r)) query \<or>
               contains_ci (cust_email (snd r)) query \<or>
               contains_ci (int_text (inv_amount (fst r))) query \<or>
               contains_ci (date_text (inv_date (fst r))) query \<or>
               contains_ci (inv_status (fst r)) query)"
    unfolding same using words by blast
  from same on_page pages apart words' show ?thesis
    unfolding matching_def by (intro conjI)
qed

text \<open>The invoice of the customer whose email is \<open>banner@x.com\<close>, for the query \<open>ann\<close>.\<close>

theorem count_and_pages_agree_witness:
  "fault shop = None \<and>
   (invoice2, bob) \<in> set (invoices_join_customers shop) \<and>
   no_wildcards ''ann'' \<and>
   distinct (map (\<lambda>r. inv_date (fst r))
      (filter (where_filtered_invoices ''ann'') (invoices_join_customers shop))) \<and>
   where_invoices_pages ''ann'' (invoice2, bob) \<and>
   (\<exists>page rows. 1 \<le> page \<and> fetchFilteredInvoices backwards shop ''ann'' page = Inr rows \<and>
                 select_invoices_table (invoice2, bob) \<in> set rows) \<and>
   contains_ci (cust_email bob) ''ann''"
proof -
  have up: "fault shop = None"
    by (simp add: shop_def)
  have joined: "(invoice2, bob) \<in> set (invoices_join_customers shop)"
    by (simp add: invoices_join_customers_def shop_def invoice1_def invoice2_def invoice3_def
        bob_def carl_def anna_def)
  have plain: "no_wildcards ''ann''"
    by (simp add: no_wildcards_def)
  have days: "distinct (map (\<lambda>r. inv_date (fst r))
      (filter (where_filtered_invoices ''ann'') (invoices_join_customers shop)))"
    by code_simp
  have counted: "where_invoices_pages ''ann'' (invoice2, bob)"
    by code_simp
  have email: "contains_ci (cust_email bob) ''ann''"
    by code_simp
  from count_and_pages_agree [OF up joined, of "''ann''" "\<lambda>_. backwards" as_stored] days counted
  have "\<exists>page rows. 1 \<le> page \<and> fetchFilteredInvoices backwards shop ''ann'' page = Inr rows \<and>
                 select_invoices_table (invoice2, bob) \<in> set rows"
    by blast
  with up joined plain days counted email show ?thesis
    by blast
qed

text \<open>
  Claim C5 as stated fails twice. In its description of the predicate: for the query
  \<open>_\<close> the invoice of Bob is counted and stands on page 1, and none of its five fields
  contains an underscore. In the equivalence: of seven invoices of one day, all
  counted (two pages), invoice 7 stands neither on page 1 fetched while the store takes
  the rows as they lie nor on page 2 fetched while it takes them backwards.
\<close>

theorem wildcard_query_counterexample:
  "where_invoices_pages ''_'' (invoice2, bob) \<and>
   fetchInvoicesPages shop ''_'' = Inr 1 \<and>
   map_sum id (map it_id) (fetchFilteredInvoices as_stored shop ''_'' 1) =
     Inr [''i2'', ''i1'', ''i3''] \<and>
   \<not> contains_ci (cust_name bob) ''_'' \<and>
   \<not> contains_ci (cust_email bob) ''_'' \<and>
   \<not> contains_ci (int_text (inv_amount invoice2)) ''_'' \<and>
   \<not> contains_ci (date_text (inv_date invoice2)) ''_'' \<and>
   \<not> contains_ci (inv_status invoice2) ''_'' \<and>
   where_invoices_pages '''' (same_day 7, anna) \<and>
   fetchInvoicesPages busy_day '''' = Inr 2 \<and>
   map_sum id (map it_id) (fetchFilteredInvoices as_stored busy_day '''' 1) =
     Inr [''1'', ''2'', ''3'', ''4'', ''5'', ''6''] \<and>
   map_sum id (map it_id) (fetchFilteredInvoices backwards busy_day '''' 2) = Inr [''1''] \<and>
   inv_id (same_day 7) = ''7''"
  by code_simp

subsection \<open>The customer search\<close>

lemma fst_left_join_rows: "r \<in> set (left_join_rows st c) \<Longrightarrow> fst r = c"
  by (auto simp: left_join_rows_def split: list.splits)

lemma left_join_rows_not_Nil: "left_join_rows st c \<noteq> []"
  by (simp add: left_join_rows_def split: list.splits)

lemma filter_left_join_rows: "filter (\<lambda>r. P (fst r)) (left_join_rows st c) = (if P c then left_join_rows st c else [])"
  by (auto simp: filter_empty_conv fst_left_join_rows intro!: filter_True)

lemma filter_concat_left_join_rows:
  "filter (\<lambda>r. P (fst r)) (concat (map (left_join_rows st) cs)) = concat (map (left_join_rows st) (filter P cs))"
  by (induction cs) (simp_all add: filter_left_join_rows)

lemma map_fst_left_join_rows: "map fst (left_join_rows st c) = replicate (length (left_join_rows st c)) c"
  by (auto simp: left_join_rows_def o_def map_replicate_const split: list.splits)

lemma remdups_replicate_append:
  "c \<notin> set ys \<Longrightarrow> 0 < n \<Longrightarrow> remdups (replicate n c @ ys) = c # remdups ys"
proof (induction n)
  case 0
  then show ?case by simp
next
  case (Suc n)
  then show ?case by (cases n) auto
qed

lemma set_fst_concat_left_join_rows: "fst ` set (concat (map (left_join_rows st) cs)) \<subseteq> set cs"
  by (auto dest: fst_left_join_rows)

lemma remdups_fst_rows:
  "distinct cs \<Longrightarrow> remdups (map fst (concat (map (left_join_rows st) cs))) = cs"
proof (induction cs)
  case Nil
  then show ?case by simp
next
  case (Cons c cs)
  have "c \<notin> set (map fst (concat (map (left_join_rows st) cs)))"
    using Cons.prems set_fst_concat_left_join_rows [of st cs] by auto
  moreover have "0 < length (left_join_rows st c)"
    by (simp add: left_join_rows_not_Nil)
  ultimately have "remdups (replicate (length (left_join_rows st c)) c @
                     map fst (concat (map (left_join_rows st) cs))) =
                   c # remdups (map fst (concat (map (left_join_rows st) cs)))"
    by (rule remdups_replicate_append)
  with Cons show ?case
    by (simp add: map_fst_left_join_rows)
qed

lemma filter_eq_distinct: "distinct cs \<Longrightarrow> c \<in> set cs \<Longrightarrow> filter (\<lambda>x. x = c) cs = [c]"
  by (induction cs) (auto simp: filter_empty_conv)

lemma group_left_join_rows:
  assumes "distinct cs" and "c \<in> set cs"
  shows "filter (\<lambda>r. fst r = c) (concat (map (left_join_rows st) cs)) = left_join_rows st c"
proof -
  have "filter (\<lambda>r. fst r = c) (concat (map (left_join_rows st) cs)) =
        concat (map (left_join_rows st) (filter (\<lambda>x. x = c) cs))"
    by (rule filter_concat_left_join_rows)
  also have "filter (\<lambda>x. x = c) cs = [c]"
    by (rule filter_eq_distinct [OF assms])
  finally show ?thesis
    by simp
qed

lemma group_by_customer_left_join_rows:
  assumes "distinct cs"
  shows "group_by_customer (concat (map (left_join_rows st) cs)) =
           map (\<lambda>c. (c, map snd (left_join_rows st c))) cs"
  unfolding group_by_customer_def remdups_fst_rows [OF assms]
  by (rule map_cong) (simp_all add: group_left_join_rows [OF assms])

lemma count_invoice_id_left_join_rows:
  "count_invoice_id (map snd (left_join_rows st c)) = length (invoices_of st c)"
proof -
  have eq: "(\<lambda>i. cust_id c = inv_customer_id i) = (\<lambda>i. inv_customer_id i = cust_id c)"
    by auto
  show ?thesis
    by (cases "filter (\<lambda>i. inv_customer_id i = cust_id c) (invoices st)")
      (simp_all add: count_invoice_id_def left_join_rows_def invoices_of_def eq o_def)
qed

lemma sum_case_filter:
  "sum_list (map (\<lambda>j. if inv_status j = s then inv_amount j else 0) xs) =
   amount_with_status s xs"
  by (induction xs) (simp_all add: amount_with_status_def)

lemma sum_case_status_left_join_rows:
  "sum_case_status s (map snd (left_join_rows st c)) = amount_with_status s (invoices_of st c)"
proof -
  have eq: "(\<lambda>i. cust_id c = inv_customer_id i) = (\<lambda>i. inv_customer_id i = cust_id c)"
    by auto
  show ?thesis
  proof (cases "filter (\<lambda>i. inv_customer_id i = cust_id c) (invoices st)")
    case Nil
    then show ?thesis
      by (simp add: sum_case_status_def left_join_rows_def invoices_of_def eq amount_with_status_def)
  next
    case (Cons i rest)
    then show ?thesis
      using sum_case_filter [of s "i # rest"]
      by (simp add: sum_case_status_def left_join_rows_def invoices_of_def eq o_def)
  qed
qed

lemma format_select_left_join_rows:
  "format_totals fmt (select_customers_table (c, map snd (left_join_rows st c))) =
   customer_totals fmt st c"
  by (simp add: format_totals_def select_customers_table_def customer_totals_def
      count_invoice_id_left_join_rows sum_case_status_left_join_rows)

lemma where_filtered_customers_fst:
  "where_filtered_customers query =
     (\<lambda>r. ilike (cust_name (fst r)) (around query) \<or> ilike (cust_email (fst r)) (around query))"
  by (rule ext) (simp add: where_filtered_customers_def case_prod_unfold)

lemma ct_name_format_totals: "ct_name (format_totals fmt r) = ct_name r"
  by (simp add: format_totals_def)

lemma fetchFilteredCustomers_rows:
  assumes "fault st = None" and "distinct (customers st)"
  shows "fetchFilteredCustomers fmt st query =
           Inr (map (format_totals fmt)
                  (sort_key ct_name
                     (map (\<lambda>c. select_customers_table (c, map snd (left_join_rows st c)))
                        (filter (\<lambda>c. ilike (cust_name c) (around query) \<or>
                                      ilike (cust_email c) (around query))
                           (customers st)))))"
proof -
  define matching where
    "matching = filter (\<lambda>c. ilike (cust_name c) (around query) \<or>
                             ilike (cust_email c) (around query)) (customers st)"
  have d: "distinct matching"
    using assms(2) by (simp add: matching_def)
  have "filter (where_filtered_customers query) (customers_left_join_invoices st) =
        concat (map (left_join_rows st) matching)"
    unfolding where_filtered_customers_fst customers_left_join_invoices_def matching_def
    by (rule filter_concat_left_join_rows)
  then have "group_by_customer
               (filter (where_filtered_customers query) (customers_left_join_invoices st)) =
             map (\<lambda>c. (c, map snd (left_join_rows st c))) matching"
    by (simp add: group_by_customer_left_join_rows [OF d])
  then show ?thesis
    using assms(1) by (simp add: fetchFilteredCustomers_def matching_def o_def)
qed

text \<open>
  Claim C9, as amended. When the store answers and no customer row is stored twice,
  \<open>fetchFilteredCustomers\<close> returns, ordered by name ascending, one row for each
  customer whose name or email matches the pattern \<open>%query%\<close> under \<open>ILIKE\<close>, with the
  number of the customer's invoices and the formatted sums of its pending and of its
  paid amounts. When the query contains none of the characters percent, underscore and
  backslash, these are exactly the customers whose name or email contains the query
  as a substring, case ignored.
\<close>

theorem filtered_customers_totals:
  assumes "fault st = None" and "distinct (customers st)"
  shows "\<exists>rows.
           fetchFilteredCustomers fmt st query = Inr rows \<and>
           sorted (map ct_name rows) \<and>
           mset rows =
             image_mset (customer_totals fmt st)
               (mset (filter (\<lambda>c. ilike (cust_name c) (around query) \<or>
                                   ilike (cust_email c) (around query)) (customers st))) \<and>
           (no_wildcards query \<longrightarrow>
              mset rows =
                image_mset (customer_totals fmt st)
                  (mset (filter (\<lambda>c. contains_ci (cust_name c) query \<or>
                                      contains_ci (cust_email c) query) (customers st))))"
proof -
  define matching where
    "matching = filter (\<lambda>c. ilike (cust_name c) (around query) \<or>
                             ilike (cust_email c) (around query)) (customers st)"
  define table where
    "table = sort_key ct_name (map (\<lambda>c. select_customers_table (c, map snd (left_join_rows st c))) matching)"
  define rows where "rows = map (format_totals fmt) table"
  have res: "fetchFilteredCustomers fmt st query = Inr rows"
    using fetchFilteredCustomers_rows [OF assms, of fmt query]
    by (simp add: rows_def table_def matching_def)
  have "map ct_name rows = map ct_name table"
    by (simp add: rows_def ct_name_format_totals)
  then have ordered: "sorted (map ct_name rows)"
    by (simp add: table_def)
  have "mset table =
          image_mset (\<lambda>c. select_customers_table (c, map snd (left_join_rows st c))) (mset matching)"
    by (simp add: table_def)
  then have "mset rows =
          image_mset (format_totals fmt)
            (image_mset (\<lambda>c. select_customers_table (c, map snd (left_join_rows st c)))
               (mset matching))"
    by (simp add: rows_def)
  also have "\<dots> = image_mset (customer_totals fmt st) (mset matching)"
    by (simp add: image_mset.compositionality o_def format_select_left_join_rows)
  finally have perm: "mset rows = image_mset (customer_totals fmt st) (mset matching)" .
  have words: "matching = filter (\<lambda>c. contains_ci (cust_name c) query \<or>
                                      contains_ci (cust_email c) query) (customers st)"
    if "no_wildcards query"
    by (simp add: matching_def ilike_contains_ci [OF that])
  have words': "no_wildcards query \<longrightarrow>
              mset rows =
                image_mset (customer_totals fmt st)
                  (mset (filter (\<lambda>c. contains_ci (cust_name c) query \<or>
                                      contains_ci (cust_email c) query) (customers st)))"
  proof
    assume "no_wildcards query"
    then show "mset rows =
                image_mset (customer_totals fmt st)
                  (mset (filter (\<lambda>c. contains_ci (cust_name c) query \<or>
                                      contains_ci (cust_email c) query) (customers st)))"
      using perm words by (simp only:)
  qed
  show ?thesis
  proof (intro exI [of _ rows] conjI)
    show "fetchFilteredCustomers fmt st query = Inr rows"
      by (rule res)
    show "sorted (map ct_name rows)"
      by (rule ordered)
    show "mset rows =
             image_mset (customer_totals fmt st)
               (mset (filter (\<lambda>c. ilike (cust_name c) (around query) \<or>
                                   ilike (cust_email c) (around query)) (customers st)))"
      using perm by (simp only: matching_def)
    show "no_wildcards query \<longrightarrow>
              mset rows =
                image_mset (customer_totals fmt st)
                  (mset (filter (\<lambda>c. contains_ci (cust_name c) query \<or>
                                      contains_ci (cust_email c) query) (customers st)))"
      by (rule words')
  qed
qed

text \<open>The query \<open>ann\<close> finds Anna by name and Bob by email, in this order.\<close>

theorem filtered_customers_totals_witness:
  "fault shop = None \<and> distinct (customers shop) \<and> no_wildcards ''ann'' \<and>
   fetchFilteredCustomers dollars shop ''ann'' =
     Inr [\<lparr> ct_id = ''c1'', ct_name = ''Anna'', ct_email = ''a@y.org'',
             ct_image_url = ''/anna.png'', ct_total_invoices = 2,
             ct_total_pending = JStr ''$3.00'', ct_total_paid = JStr ''$1250.00'' \<rparr>,
          \<lparr> ct_id = ''c2'', ct_name = ''Bob'', ct_email = ''banner@x.com'',
             ct_image_url = ''/bob.png'', ct_total_invoices = 1,
             ct_total_pending = JStr ''$45.00'', ct_total_paid = JStr ''$0.00'' \<rparr>] \<and>
   mset [\<lparr> ct_id = ''c1'', ct_name = ''Anna'', ct_email = ''a@y.org'',
           ct_image_url = ''/anna.png'', ct_total_invoices = 2,
           ct_total_pending = JStr ''$3.00'', ct_total_paid = JStr ''$1250.00'' \<rparr>,
         \<lparr> ct_id = ''c2'', ct_name = ''Bob'', ct_email = ''banner@x.com'',
           ct_image_url = ''/bob.png'', ct_total_invoices = 1,
           ct_total_pending = JStr ''$45.00'', ct_total_paid = JStr ''$0.00'' \<rparr>] =
     image_mset (customer_totals dollars shop)
       (mset (filter (\<lambda>c. contains_ci (cust_name c) ''ann'' \<or> contains_ci (cust_email c) ''ann'')
          (customers shop)))"
proof -
  have up: "fault shop = None"
    by (simp add: shop_def)
  have keys: "distinct (customers shop)"
    by (simp add: shop_def anna_def bob_def carl_def)
  have plain: "no_wildcards ''ann''"
    by (simp add: no_wildcards_def)
  have run: "fetchFilteredCustomers dollars shop ''ann'' =
     Inr [\<lparr> ct_id = ''c1'', ct_name = ''Anna'', ct_email = ''a@y.org'',
             ct_image_url = ''/anna.png'', ct_total_invoices = 2,
             ct_total_pending = JStr ''$3.00'', ct_total_paid = JStr ''$1250.00'' \<rparr>,
          \<lparr> ct_id = ''c2'', ct_name = ''Bob'', ct_email = ''banner@x.com'',
             ct_image_url = ''/bob.png'', ct_total_invoices = 1,
             ct_total_pending = JStr ''$45.00'', ct_total_paid = JStr ''$0.00'' \<rparr>]"
    by code_simp
  from filtered_customers_totals [OF up keys, of dollars "''ann''"] plain
  obtain rows where "fetchFilteredCustomers dollars shop ''ann'' = Inr rows"
    and "mset rows = image_mset (customer_totals dollars shop)
       (mset (filter (\<lambda>c. contains_ci (cust_name c) ''ann'' \<or> contains_ci (cust_email c) ''ann'')
          (customers shop)))"
    by blast
  with run up keys plain show ?thesis
    by simp
qed

text \<open>
  Claim C9 as stated fails: for the query \<open>_\<close> every customer is returned, Carl
  among them, whose name and email contain no underscore.
\<close>

theorem underscore_matches_every_customer_counterexample:
  "map_sum id (map ct_name) (fetchFilteredCustomers dollars shop ''_'') =
     Inr [''Anna'', ''Bob'', ''Carl''] \<and>
   \<not> contains_ci (cust_name carl) ''_'' \<and> \<not> contains_ci (cust_email carl) ''_''"
  by code_simp

subsection \<open>Money at the boundary\<close>

lemma set_invoices_join_customers:
  "r \<in> set (invoices_join_customers st) \<Longrightarrow> fst r \<in> set (invoices st)"
  by (auto simp: invoices_join_customers_def)

text \<open>
  Claim C8, as amended. In a successful result, the \<open>amount\<close> of every record of
  \<open>fetchLatestInvoices\<close>, the two totals of \<open>fetchCardData\<close> and the two sums of every
  record of \<open>fetchFilteredCustomers\<close> are strings produced by the formatter. The
  \<open>amount\<close> of a record of \<open>fetchFilteredInvoices\<close> is a number, the stored amount of an
  invoice, and the \<open>amount\<close> returned by \<open>fetchInvoiceById\<close> is a number and no string,
  a stored amount divided by 100 in double arithmetic.
\<close>

theorem money_fields:
  "(fetchLatestInvoices fmt q = Inr latest \<longrightarrow>
      (\<forall>y \<in> set latest. \<exists>x. li_amount y = JStr (fmt x))) \<and>
   (fetchCardData fmt q1 q2 q3 = Inr summary \<longrightarrow>
      (\<exists>x y. totalPaidInvoices summary = JStr (fmt x) \<and> totalPendingInvoices summary = JStr (fmt y))) \<and>
   (fetchFilteredCustomers fmt st query = Inr found \<longrightarrow>
      (\<forall>c \<in> set found. \<exists>x y. ct_total_pending c = JStr (fmt x) \<and> ct_total_paid c = JStr (fmt y))) \<and>
   (fetchFilteredInvoices tie st query page = Inr rows \<longrightarrow>
      (\<forall>r \<in> set rows. \<exists>i \<in> set (invoices st). it_amount r = JNum (of_int (inv_amount i)))) \<and>
   (fetchInvoiceById st ident = Inr (Some form) \<longrightarrow>
      (\<exists>i \<in> set (invoices st). if_amount form = amount_over_100 (inv_amount i)) \<and>
      \<not> is_JStr (if_amount form))"
proof -
  have latest: "fetchLatestInvoices fmt q = Inr latest \<longrightarrow>
      (\<forall>y \<in> set latest. \<exists>x. li_amount y = JStr (fmt x))"
    by (fastforce simp: fetchLatestInvoices_def catch_rethrow_def flatten_latest_def Let_def
        split: awaited.splits option.splits)
  have card: "fetchCardData fmt q1 q2 q3 = Inr summary \<longrightarrow>
      (\<exists>x y. totalPaidInvoices summary = JStr (fmt x) \<and> totalPendingInvoices summary = JStr (fmt y))"
    by (fastforce simp: fetchCardData_def catch_rethrow_def split: awaited.splits sum.splits)
  have customers: "fetchFilteredCustomers fmt st query = Inr found \<longrightarrow>
      (\<forall>c \<in> set found. \<exists>x y. ct_total_pending c = JStr (fmt x) \<and> ct_total_paid c = JStr (fmt y))"
    by (fastforce simp: fetchFilteredCustomers_def catch_rethrow_def sql_def format_totals_def
        split: option.splits)
  have invoices: "fetchFilteredInvoices tie st query page = Inr rows \<longrightarrow>
      (\<forall>r \<in> set rows. \<exists>i \<in> set (invoices st). it_amount r = JNum (of_int (inv_amount i)))"
  proof (intro impI ballI)
    fix r
    assume run: "fetchFilteredInvoices tie st query page = Inr rows" and r: "r \<in> set rows"
    define matching where
      "matching = filter (where_filtered_invoices query) (invoices_join_customers st)"
    from run obtain sel where "rows = map select_invoices_table sel"
      and "set sel \<subseteq> set (order_by_date_desc tie matching)"
      by (auto simp: fetchFilteredInvoices_def catch_rethrow_def sql_def limit_offset_def Let_def
          matching_def split: option.splits if_splits sum.splits
          dest: in_set_takeD in_set_dropD)
    with r obtain j where "j \<in> set matching" and "r = select_invoices_table j"
      by (auto simp: set_order_by_date_desc)
    then have "fst j \<in> set (invoices st)" and "it_amount r = JNum (of_int (inv_amount (fst j)))"
      by (auto simp: matching_def select_invoices_table_def set_invoices_join_customers
          case_prod_unfold)
    then show "\<exists>i \<in> set (invoices st). it_amount r = JNum (of_int (inv_amount i))"
      by blast
  qed
  have form: "fetchInvoiceById st ident = Inr (Some form) \<longrightarrow>
      (\<exists>i \<in> set (invoices st). if_amount form = amount_over_100 (inv_amount i)) \<and>
      \<not> is_JStr (if_amount form)"
  proof
    assume run: "fetchInvoiceById st ident = Inr (Some form)"
    then obtain i rest where "filter (\<lambda>i. inv_id i = ident) (invoices st) = i # rest"
      and "form = cents_to_dollars (select_invoice_form i)"
      by (auto simp: fetchInvoiceById_def catch_rethrow_def sql_def Let_def
          split: option.splits list.splits)
    moreover from this(1) have "i \<in> set (filter (\<lambda>i. inv_id i = ident) (invoices st))"
      by simp
    then have "i \<in> set (invoices st)"
      by simp
    ultimately show "(\<exists>i \<in> set (invoices st). if_amount form = amount_over_100 (inv_amount i)) \<and>
      \<not> is_JStr (if_amount form)"
      by (auto simp: cents_to_dollars_def select_invoice_form_def amount_over_100_not_string)
  qed
  from latest card customers invoices form show ?thesis
    by (intro conjI)
qed

text \<open>One successful run of each of the five operations on the sample data.\<close>

theorem money_fields_witness:
  "fetchLatestInvoices dollars (Resolves latest_ok) =
     Inr [\<lparr> li_amount = JStr ''$1250.00'', li_id = ''i1'', li_date = ''2024-03-05'',
             li_customer_id = ''c1'', li_customers = RelObject anna_ref,
             li_name = Some ''Anna'', li_image_url = Some ''/anna.png'',
             li_email = Some ''a@y.org'' \<rparr>] \<and>
   (\<exists>x. JStr ''$1250.00'' = JStr (dollars x)) \<and>
   fetchCardData dollars (Resolves (counted 3)) (Resolves (counted 3)) (Resolves status_ok) =
     Inr \<lparr> numberOfCustomers = 3, numberOfInvoices = 3,
           totalPaidInvoices = JStr ''$1250.00'', totalPendingInvoices = JStr ''$48.00'' \<rparr> \<and>
   (\<exists>x y. JStr ''$1250.00'' = JStr (dollars x) \<and> JStr ''$48.00'' = JStr (dollars y)) \<and>
   fetchFilteredCustomers dollars shop ''carl'' =
     Inr [\<lparr> ct_id = ''c3'', ct_name = ''Carl'', ct_email = ''carl@z.net'',
             ct_image_url = ''/carl.png'', ct_total_invoices = 0,
             ct_total_pending = JStr ''$0.00'', ct_total_paid = JStr ''$0.00'' \<rparr>] \<and>
   (\<exists>x y. JStr ''$0.00'' = JStr (dollars x) \<and> JStr ''$0.00'' = JStr (dollars y)) \<and>
   fetchFilteredInvoices as_stored shop ''bob'' 1 =
     Inr [\<lparr> it_id = ''i2'', it_amount = JNum 4500,
             it_date = \<lparr> d_year = 2024, d_month = 11, d_day = 20 \<rparr>,
             it_status = ''pending'', it_name = ''Bob'', it_email = ''banner@x.com'',
             it_image_url = ''/bob.png'' \<rparr>] \<and>
   (\<exists>i \<in> set (invoices shop). JNum 4500 = JNum (of_int (inv_amount i))) \<and>
   fetchInvoiceById shop ''i1'' =
     Inr (Some \<lparr> if_id = ''i1'', if_customer_id = ''c1'', if_amount = JNum 1250,
                 if_status = ''paid'' \<rparr>) \<and>
   (\<exists>i \<in> set (invoices shop). JNum 1250 = amount_over_100 (inv_amount i)) \<and>
   \<not> is_JStr (JNum 1250)"
proof -
  have latest: "fetchLatestInvoices dollars (Resolves latest_ok) =
     Inr [\<lparr> li_amount = JStr ''$1250.00'', li_id = ''i1'', li_date = ''2024-03-05'',
             li_customer_id = ''c1'', li_customers = RelObject anna_ref,
             li_name = Some ''Anna'', li_image_url = Some ''/anna.png'',
             li_email = Some ''a@y.org'' \<rparr>]"
    by code_simp
  have summary: "fetchCardData dollars (Resolves (counted 3)) (Resolves (counted 3))
       (Resolves status_ok) =
     Inr \<lparr> numberOfCustomers = 3, numberOfInvoices = 3,
           totalPaidInvoices = JStr ''$1250.00'', totalPendingInvoices = JStr ''$48.00'' \<rparr>"
    by code_simp
  have found: "fetchFilteredCustomers dollars shop ''carl'' =
     Inr [\<lparr> ct_id = ''c3'', ct_name = ''Carl'', ct_email = ''carl@z.net'',
             ct_image_url = ''/carl.png'', ct_total_invoices = 0,
             ct_total_pending = JStr ''$0.00'', ct_total_paid = JStr ''$0.00'' \<rparr>]"
    by code_simp
  have rows: "fetchFilteredInvoices as_stored shop ''bob'' 1 =
     Inr [\<lparr> it_id = ''i2'', it_amount = JNum 4500,
             it_date = \<lparr> d_year = 2024, d_month = 11, d_day = 20 \<rparr>,
             it_status = ''pending'', it_name = ''Bob'', it_email = ''banner@x.com'',
             it_image_url = ''/bob.png'' \<rparr>]"
    by code_simp
  have form: "fetchInvoiceById shop ''i1'' =
     Inr (Some \<lparr> if_id = ''i1'', if_customer_id = ''c1'', if_amount = JNum 1250,
                 if_status = ''paid'' \<rparr>)"
    by code_simp
  note facts = money_fields [where fmt = dollars and st = shop and tie = as_stored]
  from facts latest have a: "\<exists>x. JStr ''$1250.00'' = JStr (dollars x)"
    by fastforce
  from facts summary
  have b: "\<exists>x y. JStr ''$1250.00'' = JStr (dollars x) \<and> JStr ''$48.00'' = JStr (dollars y)"
    by fastforce
  from facts found
  have c: "\<exists>x y. JStr ''$0.00'' = JStr (dollars x) \<and> JStr ''$0.00'' = JStr (dollars y)"
    by fastforce
  from facts rows
  have d: "\<exists>i \<in> set (invoices shop). JNum 4500 = JNum (of_int (inv_amount i))"
    by fastforce
  from facts form
  have e: "(\<exists>i \<in> set (invoices shop). JNum 1250 = amount_over_100 (inv_amount i)) \<and>
    \<not> is_JStr (JNum 1250)"
    by fastforce
  from e have e1: "\<exists>i \<in> set (invoices shop). JNum 1250 = amount_over_100 (inv_amount i)"
    and e2: "\<not> is_JStr (JNum 1250)"
    by simp_all
  from latest a summary b found c rows d form e1 e2 show ?thesis
    by (intro conjI)
qed

text \<open>
  Claim C8 as stated fails for \<open>fetchFilteredInvoices\<close> and \<open>fetchInvoiceById\<close>: the
  amounts they return are numbers, not strings.
\<close>

theorem raw_amounts_counterexample:
  "map_sum id (map it_amount) (fetchFilteredInvoices as_stored shop ''bob'' 1) = Inr [JNum 4500] \<and>
   map_sum id (map_option if_amount) (fetchInvoiceById shop ''i1'') = Inr (Some (JNum 1250)) \<and>
   \<not> is_JStr (JNum 4500) \<and> \<not> is_JStr (JNum 1250)"
  by code_simp

end
